theory Spec2Isabelle
  imports Complex_Main
begin

section \<open>Review summary store: the conflict resolver of \<open>ReviewStore.onSyncChange\<close>\<close>

text \<open>
  The persisted review summary (\<open>ReviewContent\<close>). Only the three fields read by the
  conflict resolver matter here; \<open>history\<close> entries are kept as the ids they carry and
  \<open>modified\<close> is the epoch-millisecond number written by \<open>Date.now()\<close>.
\<close>

record ReviewContent =
  rc_maxCards :: int
  rc_maxNewCards :: int
  rc_history :: "string list"
  finished :: bool
  rc_modified :: int

text \<open>
  The callback handed to \<open>db.resolveConflicts\<close> in \<open>onSyncChange\<close>: the returned
  revision is the winner. The branches are in the order of the source.
\<close>

definition resolveConflicts_callback :: "ReviewContent \<Rightarrow> ReviewContent \<Rightarrow> ReviewContent" where
  "resolveConflicts_callback a b =
     (if finished b then a
      else if finished a then b
      else if rc_history b = [] \<and> rc_history a \<noteq> [] then a
      else if rc_history a = [] \<and> rc_history b \<noteq> [] then b
      else if rc_modified a \<ge> rc_modified b then a else b)"

section \<open>Overdueness ranking: \<open>getOverdueness\<close>\<close>

text \<open>
  JavaScript numbers are idealised as real numbers: \<open>Math.exp\<close> is the real exponential
  and no rounding is modelled.
\<close>

definition MS_PER_DAY :: int where
  "MS_PER_DAY = 1000 * 60 * 60 * 24"

definition EXP_FACTOR :: real where
  "EXP_FACTOR = 225 / 100000"

record ProgressContent =
  pc_level :: real
  due :: real

definition getOverdueness :: "ProgressContent \<Rightarrow> real \<Rightarrow> real" where
  "getOverdueness doc reviewTimeAsNumber =
     (let daysOverdue = (reviewTimeAsNumber - due doc) / real_of_int MS_PER_DAY;
          linearComponent = daysOverdue / pc_level doc;
          expComponent = exp (EXP_FACTOR * daysOverdue) - 1
      in linearComponent + expComponent)"

section \<open>Review session state machine: the reducer \<open>review\<close>\<close>

text \<open>
  The reducer compares cards by object identity (\<open>indexOf\<close>, \<open>===\<close>) and writes to
  the \<open>progress\<close> object that a card and its spread copy \<open>{ ...card }\<close> share. Cards and
  progress records therefore live in an explicit store and the queues of the state hold
  references. Arrays and state objects are only ever copied before they are changed
  (\<open>slice\<close>, spread), so they are plain values. Numbers are idealised as reals and a
  \<open>Date\<close> is its epoch-millisecond value; a \<open>Date | null\<close> is an \<open>int option\<close>.
\<close>

datatype ReviewPhase = IDLE | LOADING | QUESTION | ANSWER | COMPLETE

type_synonym card_ref = nat
type_synonym progress_ref = nat

record Progress =
  level :: real
  reviewed :: "int option"

text \<open>\<open>card_id\<close> is the field \<open>_id\<close>; \<open>progress\<close> is the reference to the progress object.\<close>

record Card =
  card_id :: string
  question :: string
  answer :: string
  progress :: progress_ref

text \<open>\<open>nextCardRef\<close> is the address the next object literal is allocated at.\<close>

record Store =
  cards :: "card_ref \<Rightarrow> Card"
  progresses :: "progress_ref \<Rightarrow> Progress"
  nextCardRef :: card_ref

text \<open>
  The values \<open>currentCard\<close> and \<open>nextCard\<close> can take: an array read outside its bounds
  yields \<open>undefined\<close>, which is distinct from \<open>null\<close> under \<open>===\<close>.
\<close>

datatype cardval = Undefined | Null | Obj card_ref

record AvailableCards =
  newCards :: int
  overdueCards :: int

record ReviewState =
  phase :: ReviewPhase
  reviewTime :: int
  maxCards :: int
  maxNewCards :: int
  completed :: int
  newCardsInPlay :: int
  heap :: "card_ref list"
  failedCardsLevel1 :: "card_ref list"
  failedCardsLevel2 :: "card_ref list"
  history :: "card_ref list"
  currentCard :: cardval
  nextCard :: cardval
  availableCards :: "AvailableCards option"
  savingProgress :: bool
  loadingAvailableCards :: bool

text \<open>\<open>initialState\<close>; its \<open>reviewTime\<close> is \<open>new Date()\<close> at module load, a parameter here.\<close>

definition initialState :: "int \<Rightarrow> ReviewState" where
  "initialState now =
     \<lparr>phase = IDLE, reviewTime = now, maxCards = 0, maxNewCards = 0, completed = 0,
      newCardsInPlay = 0, heap = [], failedCardsLevel1 = [], failedCardsLevel2 = [],
      history = [], currentCard = Null, nextCard = Null, availableCards = None,
      savingProgress = False, loadingAvailableCards = False\<rparr>"

datatype UpdateMode = UpdateCurrentCard | ReplaceNextCard

text \<open>
  The actions the reducer switches on, with the payload fields it reads.
  \<open>REVIEW_LOADED\<close>: \<open>cards\<close>, the optional \<open>history\<close>, \<open>failedCardsLevel1\<close>,
  \<open>failedCardsLevel2\<close>, then \<open>nextCardSeed\<close>, \<open>currentCardSeed\<close>, \<open>initialReview\<close>.
  \<open>LOAD_REVIEW\<close>: \<open>maxCards\<close>, \<open>maxNewCards\<close>, \<open>completed\<close>, \<open>newCardsCompleted\<close> of
  \<open>action.review\<close>. \<open>OTHER_ACTION\<close> stands for every type that reaches \<open>default\<close>.
\<close>

datatype ReviewAction =
    NEW_REVIEW int int
  | SET_REVIEW_LIMIT int int
  | SET_REVIEW_TIME int
  | REVIEW_LOADED "card_ref list" "card_ref list option" "card_ref list option"
      "card_ref list option" real real bool
  | PASS_CARD real
  | SHOW_ANSWER
  | FAIL_CARD real
  | FINISH_UPDATE_PROGRESS
  | QUERY_AVAILABLE_CARDS
  | UPDATE_AVAILABLE_CARDS AvailableCards
  | UPDATE_REVIEW_CARD card_ref
  | DELETE_REVIEW_CARD string real
  | LOAD_REVIEW int int int int
  | CANCEL_REVIEW
  | OTHER_ACTION

datatype js_error = TypeError

subsection \<open>Array helpers\<close>

text \<open>\<open>Array.prototype.indexOf\<close>: the first position holding the element, \<open>None\<close> for -1.\<close>

fun indexOf :: "'a list \<Rightarrow> 'a \<Rightarrow> nat option" where
  "indexOf [] x = None"
| "indexOf (y # ys) x = (if y = x then Some 0 else map_option Suc (indexOf ys x))"

text \<open>\<open>Array.prototype.findIndex\<close>.\<close>

fun findIndex :: "('a \<Rightarrow> bool) \<Rightarrow> 'a list \<Rightarrow> nat option" where
  "findIndex P [] = None"
| "findIndex P (y # ys) = (if P y then Some 0 else map_option Suc (findIndex P ys))"

text \<open>\<open>xs.splice(i, 1)\<close> on a fresh copy of \<open>xs\<close>.\<close>

definition splice1 :: "nat \<Rightarrow> 'a list \<Rightarrow> 'a list" where
  "splice1 i xs = take i xs @ drop (Suc i) xs"

text \<open>An array read \<open>xs[i]\<close>: \<open>undefined\<close> outside the bounds.\<close>

definition arrayGet :: "card_ref list \<Rightarrow> int \<Rightarrow> cardval" where
  "arrayGet xs i = (if 0 \<le> i \<and> i < int (length xs) then Obj (xs ! nat i) else Undefined)"

definition truthy :: "cardval \<Rightarrow> bool" where
  "truthy v = (case v of Obj c \<Rightarrow> True | _ \<Rightarrow> False)"

subsection \<open>\<open>updateNextCard\<close>\<close>

text \<open>The closure \<open>getCardAtIndex\<close>; \<open>heap1\<close> is the local \<open>heap\<close> it captures.\<close>

definition getCardAtIndex :: "ReviewState \<Rightarrow> card_ref list \<Rightarrow> int \<Rightarrow> cardval" where
  "getCardAtIndex state heap1 cardIndex =
     (let level1Start = int (length (failedCardsLevel2 state));
          heapStart = int (length (failedCardsLevel2 state)) + int (length (failedCardsLevel1 state))
      in if cardIndex < level1Start then arrayGet (failedCardsLevel2 state) cardIndex
         else if cardIndex < heapStart then arrayGet (failedCardsLevel1 state) (cardIndex - level1Start)
         else arrayGet heap1 (cardIndex - heapStart))"

text \<open>
  The block "Find next card" of \<open>updateNextCard\<close>: the value of the local \<open>nextCard\<close>
  after it, given the locals \<open>heap\<close>, \<open>currentCard\<close> and \<open>cardsAvailable\<close> before it.
\<close>

definition findNextCard :: "ReviewState \<Rightarrow> card_ref list \<Rightarrow> cardval \<Rightarrow> int \<Rightarrow> real \<Rightarrow> cardval" where
  "findNextCard state heap1 currentCard1 cardsAvailable1 seed =
     (if cardsAvailable1 \<noteq> 0 then
        (let cardIndex = \<lfloor>seed * real_of_int cardsAvailable1\<rfloor>;
             nextCard1 = getCardAtIndex state heap1 cardIndex
         in if nextCard1 = currentCard1 then
              (if cardsAvailable1 = 1 then Null
               else getCardAtIndex state heap1
                      (if cardIndex < cardsAvailable1 - 1 then cardIndex + 1 else cardIndex - 1))
            else nextCard1)
      else Null)"

text \<open>The test "level zero and never reviewed" made on the card taken out of the heap.\<close>

definition isNewCard :: "Store \<Rightarrow> cardval \<Rightarrow> bool" where
  "isNewCard \<sigma> v =
     (case v of
        Obj c \<Rightarrow> level (progresses \<sigma> (progress (cards \<sigma> c))) = 0 \<and>
                 reviewed (progresses \<sigma> (progress (cards \<sigma> c))) = None
      | _ \<Rightarrow> False)"

definition updateNextCard :: "Store \<Rightarrow> ReviewState \<Rightarrow> real \<Rightarrow> UpdateMode \<Rightarrow> ReviewState" where
  "updateNextCard \<sigma> state seed updateMode =
     (let cardsAvailable =
            int (length (failedCardsLevel2 state)) + int (length (failedCardsLevel1 state)) +
            int (length (heap state))
      in if cardsAvailable = 0 then
           (if updateMode = UpdateCurrentCard \<or> \<not> truthy (currentCard state)
            then state\<lparr>phase := COMPLETE, currentCard := Null, nextCard := Null\<rparr>
            else state\<lparr>nextCard := Null\<rparr>)
         else
           (let currentCard1 =
                  (if updateMode = UpdateCurrentCard then nextCard state else currentCard state);
                heapIndex =
                  (if updateMode = UpdateCurrentCard
                   then (case currentCard1 of Obj c \<Rightarrow> indexOf (heap state) c | _ \<Rightarrow> None)
                   else None);
                heap1 = (case heapIndex of Some i \<Rightarrow> splice1 i (heap state) | None \<Rightarrow> heap state);
                cardsAvailable1 =
                  (case heapIndex of Some i \<Rightarrow> cardsAvailable - 1 | None \<Rightarrow> cardsAvailable);
                newCardsInPlay1 =
                  (case heapIndex of
                     Some i \<Rightarrow> (if isNewCard \<sigma> currentCard1 then newCardsInPlay state + 1
                                else newCardsInPlay state)
                   | None \<Rightarrow> newCardsInPlay state);
                nextCard1 = findNextCard state heap1 currentCard1 cardsAvailable1 seed;
                revisit = (\<not> truthy currentCard1 \<and> truthy (currentCard state) \<and> truthy nextCard1);
                currentCard2 = (if revisit then nextCard1 else currentCard1);
                nextCard2 = (if revisit then Null else nextCard1);
                history1 =
                  (case currentCard2 of
                     Obj c \<Rightarrow> (case indexOf (history state) c of
                                 Some i \<Rightarrow> splice1 i (history state)
                               | None \<Rightarrow> history state)
                   | _ \<Rightarrow> history state)
            in state\<lparr>newCardsInPlay := newCardsInPlay1, heap := heap1, history := history1,
                     currentCard := currentCard2, nextCard := nextCard2\<rparr>))"

subsection \<open>The cases of \<open>review\<close>\<close>

text \<open>
  \<open>{ ...card }\<close>: a new card object with the fields of \<open>c\<close>. The copy is shallow, its
  \<open>progress\<close> field refers to the progress object of \<open>c\<close>.
\<close>

definition spreadCard :: "Store \<Rightarrow> card_ref \<Rightarrow> card_ref \<times> Store" where
  "spreadCard \<sigma> c =
     (nextCardRef \<sigma>,
      \<sigma>\<lparr>cards := (cards \<sigma>)(nextCardRef \<sigma> := cards \<sigma> c), nextCardRef := Suc (nextCardRef \<sigma>)\<rparr>)"

definition setProgress :: "Store \<Rightarrow> progress_ref \<Rightarrow> Progress \<Rightarrow> Store" where
  "setProgress \<sigma> p v = \<sigma>\<lparr>progresses := (progresses \<sigma>)(p := v)\<rparr>"

text \<open>
  Case \<open>PASS_CARD\<close>. With \<open>currentCard\<close> null or undefined the spread gives \<open>{}\<close> and
  reading \<open>updatedCard.progress.level\<close> throws before anything is written.
\<close>

definition passCard :: "ReviewState \<Rightarrow> real \<Rightarrow> Store \<Rightarrow> js_error + (ReviewState \<times> Store)" where
  "passCard state nextCardSeed \<sigma> =
     (if phase state \<noteq> ANSWER \<and> phase state \<noteq> QUESTION then Inr (state, \<sigma>)
      else case currentCard state of
        Obj passedCard \<Rightarrow>
          (let updatedCard = fst (spreadCard \<sigma> passedCard);
               \<sigma>1 = snd (spreadCard \<sigma> passedCard);
               inLevel2 = indexOf (failedCardsLevel2 state) passedCard;
               inLevel1 = indexOf (failedCardsLevel1 state) passedCard;
               failedCardsLevel2' =
                 (case inLevel2 of Some i \<Rightarrow> splice1 i (failedCardsLevel2 state)
                  | None \<Rightarrow> failedCardsLevel2 state);
               failedCardsLevel1' =
                 (case inLevel2 of
                    Some i \<Rightarrow> failedCardsLevel1 state @ [updatedCard]
                  | None \<Rightarrow> (case inLevel1 of Some j \<Rightarrow> splice1 j (failedCardsLevel1 state)
                             | None \<Rightarrow> failedCardsLevel1 state));
               finished_card = (inLevel2 = None);
               p = progress (cards \<sigma>1 updatedCard);
               old = progresses \<sigma>1 p;
               \<sigma>2 =
                 (if finished_card then
                    (if level old \<noteq> 0 \<and> reviewed old \<noteq> None then
                       (let intervalInDays =
                              real_of_int (reviewTime state - the (reviewed old)) /
                              real_of_int MS_PER_DAY
                        in setProgress \<sigma>1 p
                             \<lparr>level = max (intervalInDays * 2) (max (level old) (1 / 2)),
                              reviewed = Some (reviewTime state)\<rparr>)
                     else setProgress \<sigma>1 p \<lparr>level = 1 / 2, reviewed = Some (reviewTime state)\<rparr>)
                  else setProgress \<sigma>1 p (old\<lparr>level := 0\<rparr>));
               completed' = (if finished_card then completed state + 1 else completed state);
               history' = history state @ [updatedCard];
               intermediateState =
                 state\<lparr>phase := QUESTION, completed := completed',
                       failedCardsLevel2 := failedCardsLevel2',
                       failedCardsLevel1 := failedCardsLevel1', history := history',
                       currentCard := Obj updatedCard, savingProgress := True\<rparr>
           in Inr (updateNextCard \<sigma>2 intermediateState nextCardSeed UpdateCurrentCard, \<sigma>2))
      | _ \<Rightarrow> Inl TypeError)"

text \<open>Case \<open>FAIL_CARD\<close>.\<close>

definition failCard :: "ReviewState \<Rightarrow> real \<Rightarrow> Store \<Rightarrow> js_error + (ReviewState \<times> Store)" where
  "failCard state nextCardSeed \<sigma> =
     (if phase state \<noteq> ANSWER \<and> phase state \<noteq> QUESTION then Inr (state, \<sigma>)
      else case currentCard state of
        Obj failedCard \<Rightarrow>
          (let updatedCard = fst (spreadCard \<sigma> failedCard);
               \<sigma>1 = snd (spreadCard \<sigma> failedCard);
               inLevel1 = indexOf (failedCardsLevel1 state) failedCard;
               failedCardsLevel1' =
                 (case inLevel1 of Some i \<Rightarrow> splice1 i (failedCardsLevel1 state)
                  | None \<Rightarrow> failedCardsLevel1 state);
               inLevel2 =
                 (case inLevel1 of Some i \<Rightarrow> None
                  | None \<Rightarrow> indexOf (failedCardsLevel2 state) failedCard);
               failedCardsLevel2' =
                 (case inLevel2 of Some j \<Rightarrow> splice1 j (failedCardsLevel2 state)
                  | None \<Rightarrow> failedCardsLevel2 state) @ [updatedCard];
               p = progress (cards \<sigma>1 updatedCard);
               \<sigma>2 = setProgress \<sigma>1 p \<lparr>level = 0, reviewed = Some (reviewTime state)\<rparr>;
               history' = history state @ [updatedCard];
               intermediateState =
                 state\<lparr>phase := QUESTION, failedCardsLevel1 := failedCardsLevel1',
                       failedCardsLevel2 := failedCardsLevel2', history := history',
                       currentCard := Obj updatedCard, savingProgress := True\<rparr>
           in Inr (updateNextCard \<sigma>2 intermediateState nextCardSeed UpdateCurrentCard, \<sigma>2))
      | _ \<Rightarrow> Inl TypeError)"

text \<open>Case \<open>REVIEW_LOADED\<close>.\<close>

definition reviewLoaded ::
  "ReviewState \<Rightarrow> card_ref list \<Rightarrow> card_ref list option \<Rightarrow> card_ref list option \<Rightarrow>
   card_ref list option \<Rightarrow> real \<Rightarrow> real \<Rightarrow> bool \<Rightarrow> Store \<Rightarrow> ReviewState" where
  "reviewLoaded state cs hist lvl1 lvl2 nextCardSeed currentCardSeed initialReview \<sigma> =
     (let s0 = state\<lparr>heap := cs\<rparr>;
          s1 = (case hist of Some h \<Rightarrow> s0\<lparr>history := h\<rparr> | None \<Rightarrow> s0);
          s2 = (case lvl1 of Some q \<Rightarrow> s1\<lparr>failedCardsLevel1 := q\<rparr> | None \<Rightarrow> s1);
          s3 = (case lvl2 of Some q \<Rightarrow> s2\<lparr>failedCardsLevel2 := q\<rparr> | None \<Rightarrow> s2);
          s4 = updateNextCard \<sigma> s3 nextCardSeed ReplaceNextCard;
          s5 = (if truthy (nextCard s4) \<and> \<not> truthy (currentCard s4)
                then updateNextCard \<sigma> s4 currentCardSeed UpdateCurrentCard else s4);
          s6 = (if (phase s5 = COMPLETE \<or> phase s5 = LOADING) \<and> truthy (currentCard s5)
                then s5\<lparr>phase := QUESTION\<rparr> else s5)
      in if phase s6 = COMPLETE \<and> initialReview then s6\<lparr>phase := IDLE\<rparr> else s6)"

text \<open>Case \<open>UPDATE_REVIEW_CARD\<close>: every card with the \<open>_id\<close> of \<open>action.card\<close> is replaced by it.\<close>

definition replaceCard :: "Store \<Rightarrow> card_ref \<Rightarrow> card_ref \<Rightarrow> card_ref" where
  "replaceCard \<sigma> r c = (if card_id (cards \<sigma> c) = card_id (cards \<sigma> r) then r else c)"

definition replaceCardVal :: "Store \<Rightarrow> card_ref \<Rightarrow> cardval \<Rightarrow> cardval" where
  "replaceCardVal \<sigma> r v = (case v of Obj c \<Rightarrow> Obj (replaceCard \<sigma> r c) | _ \<Rightarrow> v)"

definition updateReviewCard :: "ReviewState \<Rightarrow> card_ref \<Rightarrow> Store \<Rightarrow> ReviewState" where
  "updateReviewCard state r \<sigma> =
     state\<lparr>currentCard := replaceCardVal \<sigma> r (currentCard state),
           nextCard := replaceCardVal \<sigma> r (nextCard state),
           heap := map (replaceCard \<sigma> r) (heap state),
           failedCardsLevel1 := map (replaceCard \<sigma> r) (failedCardsLevel1 state),
           failedCardsLevel2 := map (replaceCard \<sigma> r) (failedCardsLevel2 state),
           history := map (replaceCard \<sigma> r) (history state)\<rparr>"

text \<open>Case \<open>DELETE_REVIEW_CARD\<close>.\<close>

definition dropCardById :: "Store \<Rightarrow> string \<Rightarrow> card_ref list \<Rightarrow> card_ref list" where
  "dropCardById \<sigma> i xs =
     (case findIndex (\<lambda>c. card_id (cards \<sigma> c) = i) xs of
        Some k \<Rightarrow> splice1 k xs | None \<Rightarrow> xs)"

definition hasId :: "Store \<Rightarrow> string \<Rightarrow> cardval \<Rightarrow> bool" where
  "hasId \<sigma> i v = (case v of Obj c \<Rightarrow> card_id (cards \<sigma> c) = i | _ \<Rightarrow> False)"

definition deleteReviewCard :: "ReviewState \<Rightarrow> string \<Rightarrow> real \<Rightarrow> Store \<Rightarrow> ReviewState" where
  "deleteReviewCard state i nextCardSeed \<sigma> =
     (let updated =
            state\<lparr>heap := dropCardById \<sigma> i (heap state),
                  failedCardsLevel1 := dropCardById \<sigma> i (failedCardsLevel1 state),
                  failedCardsLevel2 := dropCardById \<sigma> i (failedCardsLevel2 state),
                  history := dropCardById \<sigma> i (history state)\<rparr>
      in if hasId \<sigma> i (nextCard state) then updateNextCard \<sigma> updated nextCardSeed ReplaceNextCard
         else if hasId \<sigma> i (currentCard state)
         then updateNextCard \<sigma> (updated\<lparr>currentCard := Null\<rparr>) nextCardSeed UpdateCurrentCard
         else updated)"

text \<open>
  The reducer. It returns the new state together with the store as the call leaves it,
  or the exception it throws.
\<close>

fun review :: "ReviewState \<Rightarrow> ReviewAction \<Rightarrow> Store \<Rightarrow> js_error + (ReviewState \<times> Store)" where
  "review state (NEW_REVIEW mc mnc) \<sigma> =
     Inr ((initialState (reviewTime state))
            \<lparr>phase := LOADING, maxCards := mc, maxNewCards := mnc, availableCards := None\<rparr>, \<sigma>)"
| "review state (SET_REVIEW_LIMIT mc mnc) \<sigma> =
     Inr (state\<lparr>phase := LOADING, maxCards := mc, maxNewCards := mnc\<rparr>, \<sigma>)"
| "review state (SET_REVIEW_TIME t) \<sigma> = Inr (state\<lparr>reviewTime := t\<rparr>, \<sigma>)"
| "review state (REVIEW_LOADED cs hist lvl1 lvl2 nextCardSeed currentCardSeed initialReview) \<sigma> =
     Inr (reviewLoaded state cs hist lvl1 lvl2 nextCardSeed currentCardSeed initialReview \<sigma>, \<sigma>)"
| "review state (PASS_CARD nextCardSeed) \<sigma> = passCard state nextCardSeed \<sigma>"
| "review state SHOW_ANSWER \<sigma> =
     (if phase state \<noteq> QUESTION then Inr (state, \<sigma>) else Inr (state\<lparr>phase := ANSWER\<rparr>, \<sigma>))"
| "review state (FAIL_CARD nextCardSeed) \<sigma> = failCard state nextCardSeed \<sigma>"
| "review state FINISH_UPDATE_PROGRESS \<sigma> =
     (if \<not> savingProgress state then Inr (state, \<sigma>)
      else Inr (state\<lparr>savingProgress := False\<rparr>, \<sigma>))"
| "review state QUERY_AVAILABLE_CARDS \<sigma> = Inr (state\<lparr>loadingAvailableCards := True\<rparr>, \<sigma>)"
| "review state (UPDATE_AVAILABLE_CARDS ac) \<sigma> =
     (if phase state \<noteq> IDLE \<and> phase state \<noteq> COMPLETE
      then Inr (state\<lparr>availableCards := None, loadingAvailableCards := False\<rparr>, \<sigma>)
      else Inr (state\<lparr>availableCards := Some ac, loadingAvailableCards := False\<rparr>, \<sigma>))"
| "review state (UPDATE_REVIEW_CARD r) \<sigma> = Inr (updateReviewCard state r \<sigma>, \<sigma>)"
| "review state (DELETE_REVIEW_CARD i nextCardSeed) \<sigma> =
     Inr (deleteReviewCard state i nextCardSeed \<sigma>, \<sigma>)"
| "review state (LOAD_REVIEW mc mnc done newDone) \<sigma> =
     Inr (state\<lparr>phase := LOADING, maxCards := mc, maxNewCards := mnc, completed := done,
                newCardsInPlay := newDone, currentCard := Null, nextCard := Null\<rparr>, \<sigma>)"
| "review state CANCEL_REVIEW \<sigma> =
     (if phase state = IDLE \<or> phase state = COMPLETE then Inr (state, \<sigma>)
      else Inr (state\<lparr>phase := IDLE, maxCards := 0, maxNewCards := 0, completed := 0,
                      newCardsInPlay := 0, heap := [], failedCardsLevel1 := [],
                      failedCardsLevel2 := [], history := [], currentCard := Null,
                      nextCard := Null\<rparr>, \<sigma>))"
| "review state OTHER_ACTION \<sigma> = Inr (state, \<sigma>)"

text \<open>Dispatching a sequence of actions in order; an exception ends the run.\<close>

fun dispatchAll :: "ReviewState \<Rightarrow> ReviewAction list \<Rightarrow> Store \<Rightarrow> js_error + (ReviewState \<times> Store)" where
  "dispatchAll state [] \<sigma> = Inr (state, \<sigma>)"
| "dispatchAll state (a # as) \<sigma> =
     (case review state a \<sigma> of
        Inl e \<Rightarrow> Inl e
      | Inr (state', \<sigma>') \<Rightarrow> dispatchAll state' as \<sigma>')"

text \<open>
  What an observer holding on to a state sees through it: the contents of every card
  the state refers to, progress included.
\<close>

definition cardView :: "Store \<Rightarrow> card_ref \<Rightarrow> string \<times> string \<times> string \<times> real \<times> int option" where
  "cardView \<sigma> c =
     (card_id (cards \<sigma> c), question (cards \<sigma> c), answer (cards \<sigma> c),
      level (progresses \<sigma> (progress (cards \<sigma> c))),
      reviewed (progresses \<sigma> (progress (cards \<sigma> c))))"

definition cardvalView ::
  "Store \<Rightarrow> cardval \<Rightarrow> (string \<times> string \<times> string \<times> real \<times> int option) option" where
  "cardvalView \<sigma> v = (case v of Obj c \<Rightarrow> Some (cardView \<sigma> c) | _ \<Rightarrow> None)"

definition deepView ::
  "Store \<Rightarrow> ReviewState \<Rightarrow>
   (string \<times> string \<times> string \<times> real \<times> int option) list list \<times>
   (string \<times> string \<times> string \<times> real \<times> int option) option list" where
  "deepView \<sigma> state =
     ([map (cardView \<sigma>) (heap state), map (cardView \<sigma>) (failedCardsLevel1 state),
       map (cardView \<sigma>) (failedCardsLevel2 state), map (cardView \<sigma>) (history state)],
      [cardvalView \<sigma> (currentCard state), cardvalView \<sigma> (nextCard state)])"

subsection \<open>The specification's formulas, for comparison\<close>

text \<open>
  The new interval as the specification words it:
  \<open>level = max(previousLevel, 2 * daysSinceLastReview, 0.5)\<close>, and \<open>0.5\<close> for a card
  without a previous \<open>reviewed\<close> timestamp or with level 0.
\<close>

definition spec_passLevel :: "Progress \<Rightarrow> int \<Rightarrow> real" where
  "spec_passLevel old t =
     (if level old \<noteq> 0 \<and> reviewed old \<noteq> None
      then max (level old)
             (max (2 * (real_of_int (t - the (reviewed old)) / real_of_int MS_PER_DAY)) (1 / 2))
      else 1 / 2)"

text \<open>
  The selection rule as the specification words it, for a pool, the card \<open>cur\<close> the pick
  is compared with, and a seed: index \<open>floor (s * poolSize)\<close>; on a match the index
  moves up by one, or down by one at the last index; a pool of one matching card gives
  null.
\<close>

definition spec_select :: "card_ref list \<Rightarrow> cardval \<Rightarrow> real \<Rightarrow> cardval" where
  "spec_select pool cur s =
     (let n = length pool; i = nat \<lfloor>s * real n\<rfloor>
      in if Obj (pool ! i) \<noteq> cur then Obj (pool ! i)
         else if n = 1 then Null
         else Obj (pool ! (if i < n - 1 then i + 1 else i - 1)))"

subsection \<open>Concrete sessions\<close>

text \<open>
  A store with two new cards \<open>a\<close> and \<open>b\<close> (objects 0 and 1), the objects a second fetch
  of the same two documents produces (2 and 3), and the object an edit of card \<open>a\<close>
  produces (4). Every progress record is that of a new card.
\<close>

definition demo_store :: Store where
  "demo_store =
     \<lparr>cards = (\<lambda>r. if r = 0 then \<lparr>card_id = ''a'', question = ''Q1'', answer = ''A1'', progress = 0\<rparr>
                   else if r = 1 then \<lparr>card_id = ''b'', question = ''Q2'', answer = ''A2'', progress = 1\<rparr>
                   else if r = 2 then \<lparr>card_id = ''a'', question = ''Q1'', answer = ''A1'', progress = 2\<rparr>
                   else if r = 3 then \<lparr>card_id = ''b'', question = ''Q2'', answer = ''A2'', progress = 3\<rparr>
                   else \<lparr>card_id = ''a'', question = ''Q1 edited'', answer = ''A1'', progress = 4\<rparr>),
      progresses = (\<lambda>p. \<lparr>level = 0, reviewed = None\<rparr>),
      nextCardRef = 5\<rparr>"

text \<open>A review of the two cards is loaded: card \<open>a\<close> is current and card \<open>b\<close> is next.\<close>

definition demo_loaded :: "ReviewAction list" where
  "demo_loaded = [NEW_REVIEW 2 2, REVIEW_LOADED [0, 1] None None None 0 0 True]"

text \<open>
  Then the review time is changed and the heap is loaded again with freshly fetched
  objects (card \<open>a\<close> is still new in the database, so it is fetched again), card \<open>a\<close>
  is passed, and an edit of card \<open>a\<close> arrives from the store.
\<close>

definition demo_edit_after_reload :: "ReviewAction list" where
  "demo_edit_after_reload =
     demo_loaded @
     [SET_REVIEW_TIME 2000, REVIEW_LOADED [2, 3] None None None 0 0 False, PASS_CARD 0,
      UPDATE_REVIEW_CARD 4]"

text \<open>
  A session on its last card: card \<open>a\<close> (object 0), level 3, last reviewed at the end of
  day 1, is the current card at the end of day 6; nothing else is queued.
\<close>

definition last_card_store :: Store where
  "last_card_store =
     \<lparr>cards = (\<lambda>r. \<lparr>card_id = ''a'', question = ''Q1'', answer = ''A1'', progress = 0\<rparr>),
      progresses = (\<lambda>p. \<lparr>level = 3, reviewed = Some 86400000\<rparr>),
      nextCardRef = 1\<rparr>"

definition last_card_state :: ReviewState where
  "last_card_state =
     (initialState 518400000)\<lparr>phase := QUESTION, maxCards := 1, currentCard := Obj 0\<rparr>"

text \<open>
  A state as \<open>FAIL_CARD\<close> hands it to \<open>updateNextCard\<close>: card 0 has just been failed and
  appended to \<open>failedCardsLevel2\<close> behind card 1, which is the next card.
\<close>

definition two_failed_state :: ReviewState where
  "two_failed_state =
     (initialState 518400000)
       \<lparr>phase := QUESTION, maxCards := 2, failedCardsLevel2 := [1, 0], history := [1, 0],
        currentCard := Obj 0, nextCard := Obj 1, savingProgress := True\<rparr>"

section \<open>Card and progress store: \<open>CardStore\<close>\<close>

subsection \<open>The document store\<close>

text \<open>
  Modelled from the spec: the replicating document store (section 6), which the
  repository uses as a library. It provides get, put and delete by id with revision
  conflict detection; a failed read is \<open>NotFound\<close> with reason \<open>missing\<close> or \<open>deleted\<close>, a
  stale write is \<open>Conflict\<close> (status 409). The store has a single writer here, and a
  revision is a counter. Card documents (\<open>card-<id>\<close>) and progress documents
  (\<open>progress-<id>\<close>) are two tables keyed by the bare id. A document with no content is
  the tombstone a delete leaves.
\<close>

datatype db_error = NotFound_missing | NotFound_deleted | Conflict

record 'a doc =
  doc_rev :: nat
  content :: "'a option"

type_synonym 'a table = "string \<Rightarrow> 'a doc option"

definition status :: "db_error \<Rightarrow> nat" where
  "status e = (case e of Conflict \<Rightarrow> 409 | _ \<Rightarrow> 404)"

definition tbl_get :: "'a table \<Rightarrow> string \<Rightarrow> db_error + 'a doc" where
  "tbl_get tbl i =
     (case tbl i of
        None \<Rightarrow> Inl NotFound_missing
      | Some d \<Rightarrow> (if content d = None then Inl NotFound_deleted else Inr d))"

text \<open>\<open>db.put\<close> of a document without \<open>_rev\<close>: refused when a live document has the id.\<close>

definition tbl_put_new :: "'a table \<Rightarrow> string \<Rightarrow> 'a \<Rightarrow> db_error + (nat \<times> 'a table)" where
  "tbl_put_new tbl i c =
     (case tbl i of
        None \<Rightarrow> Inr (1, tbl(i \<mapsto> \<lparr>doc_rev = 1, content = Some c\<rparr>))
      | Some d \<Rightarrow>
          (if content d = None
           then Inr (Suc (doc_rev d), tbl(i \<mapsto> \<lparr>doc_rev = Suc (doc_rev d), content = Some c\<rparr>))
           else Inl Conflict))"

text \<open>\<open>db.remove\<close> of the document with the given \<open>_id\<close> and \<open>_rev\<close>.\<close>

definition tbl_remove :: "'a table \<Rightarrow> string \<Rightarrow> nat \<Rightarrow> db_error + 'a table" where
  "tbl_remove tbl i r =
     (case tbl i of
        None \<Rightarrow> Inl NotFound_missing
      | Some d \<Rightarrow>
          (if content d = None then Inl NotFound_deleted
           else if doc_rev d = r then Inr (tbl(i \<mapsto> \<lparr>doc_rev = Suc (doc_rev d), content = None\<rparr>))
           else Inl Conflict))"

text \<open>
  The write that \<open>db.upsert\<close> makes after its callback returned a document: a put with
  the revision just read, which a single writer always gets accepted.
\<close>

definition tbl_update :: "'a table \<Rightarrow> string \<Rightarrow> 'a doc \<Rightarrow> 'a \<Rightarrow> 'a table" where
  "tbl_update tbl i d c = tbl(i \<mapsto> \<lparr>doc_rev = Suc (doc_rev d), content = Some c\<rparr>)"

subsection \<open>Documents and cards\<close>

text \<open>
  \<open>CardContent\<close>, the stored card document, its fields prefixed with \<open>d_\<close>: the
  keywords, the tags and \<open>starred\<close> are optional. The stored progress document is
  \<open>ProgressContent\<close> above. Numbers and timestamps are reals.
\<close>

record CardContent =
  d_front :: string
  d_back :: string
  d_keywords :: "string list option"
  d_tags :: "string list option"
  d_starred :: "bool option"
  d_created :: real
  d_modified :: real

record database =
  cardDocs :: "CardContent table"
  progressDocs :: "ProgressContent table"

text \<open>The merged card handed to callers; \<open>c_due\<close> is \<open>Date | null\<close>.\<close>

record MergedCard =
  c_id :: string
  c_front :: string
  c_back :: string
  c_keywords :: "string list"
  c_tags :: "string list"
  c_starred :: bool
  c_created :: real
  c_modified :: real
  c_level :: real
  c_due :: "real option"

text \<open>
  \<open>Partial<Card>\<close>, the argument of \<open>putCard\<close>: \<open>None\<close> is an absent field. For
  \<open>u_due\<close>, \<open>Some None\<close> is a \<open>due\<close> of null and \<open>Some (Some t)\<close> a \<open>Date\<close>.
\<close>

record ProgressUpdate =
  u_level :: "real option"
  u_due :: "real option option"

record CardUpdate =
  u_id :: "string option"
  u_front :: "string option"
  u_back :: "string option"
  u_keywords :: "string list option"
  u_tags :: "string list option"
  u_starred :: "bool option"
  u_created :: "real option"
  u_modified :: "real option"
  u_progress :: "ProgressUpdate option"

text \<open>
  What the store reads from outside: \<open>String.prototype.normalize\<close> and the clock
  (\<open>new Date().getTime()\<close>).
\<close>

record env =
  env_normalize :: "string \<Rightarrow> string"
  env_now :: real

text \<open>\<open>mergeDocs\<close>, with \<open>parseCard\<close> and \<open>parseProgress\<close> inlined.\<close>

definition mergeDocs :: "string \<Rightarrow> CardContent \<Rightarrow> ProgressContent \<Rightarrow> MergedCard" where
  "mergeDocs i cardDoc progressDoc =
     \<lparr>c_id = i, c_front = d_front cardDoc, c_back = d_back cardDoc,
      c_keywords = (case d_keywords cardDoc of Some ks \<Rightarrow> ks | None \<Rightarrow> []),
      c_tags = (case d_tags cardDoc of Some ts \<Rightarrow> ts | None \<Rightarrow> []),
      c_starred = (case d_starred cardDoc of Some b \<Rightarrow> b | None \<Rightarrow> False),
      c_created = d_created cardDoc, c_modified = d_modified cardDoc,
      c_level = pc_level progressDoc,
      c_due = (if due progressDoc \<noteq> 0 then Some (due progressDoc) else None)\<rparr>"

text \<open>
  \<open>normalizeCardForDB\<close>. Its second argument is only inspected for which of
  \<open>keywords\<close>, \<open>tags\<close>, \<open>starred\<close> it carries, given here as the three optional fields.
\<close>

definition normalizeCardForDB ::
  "env \<Rightarrow> CardContent \<Rightarrow> string list option \<Rightarrow> string list option \<Rightarrow> bool option \<Rightarrow> CardContent" where
  "normalizeCardForDB e cardContent upd_keywords upd_tags upd_starred =
     (let n0 = cardContent\<lparr>d_front := env_normalize e (d_front cardContent),
                            d_back := env_normalize e (d_back cardContent)\<rparr>;
          n1 = (if upd_keywords = Some [] then n0\<lparr>d_keywords := None\<rparr> else n0);
          n2 = n1\<lparr>d_keywords := map_option (map (env_normalize e)) (d_keywords n1)\<rparr>;
          n3 = (if upd_tags = Some [] then n2\<lparr>d_tags := None\<rparr> else n2);
          n4 = n3\<lparr>d_tags := map_option (map (env_normalize e)) (d_tags n3)\<rparr>
      in if upd_starred = Some False then n4\<lparr>d_starred := None\<rparr> else n4)"

subsection \<open>\<open>getCard\<close>\<close>

definition getCard :: "database \<Rightarrow> string \<Rightarrow> db_error + MergedCard" where
  "getCard db i =
     (case tbl_get (cardDocs db) i of
        Inl err \<Rightarrow> Inl err
      | Inr cardDoc \<Rightarrow>
          (case tbl_get (progressDocs db) i of
             Inl err \<Rightarrow> Inl err
           | Inr progressDoc \<Rightarrow> Inr (mergeDocs i (the (content cardDoc)) (the (content progressDoc)))))"

subsection \<open>\<open>putCard\<close> without an id: \<open>_putNewCard\<close>\<close>

text \<open>
  The inner function \<open>tryPutNewCard\<close>. The ids that \<open>generateUniqueTimestampId\<close> of
  \<open>./utils\<close> returns, call after call, are the list argument; \<open>None\<close> is a run that is
  still retrying when the list ends. The result pairs what the promise settles to with
  the database as the call leaves it.
\<close>

fun tryPutNewCard ::
  "CardContent \<Rightarrow> ProgressContent \<Rightarrow> database \<Rightarrow> string list \<Rightarrow>
   ((db_error + MergedCard) \<times> database) option" where
  "tryPutNewCard cardContent progressContent db [] = None"
| "tryPutNewCard cardContent progressContent db (i # ids) =
     (case tbl_put_new (cardDocs db) i cardContent of
        Inl err \<Rightarrow>
          (if status err \<noteq> 409 then Some (Inl err, db)
           else tryPutNewCard cardContent progressContent db ids)
      | Inr (putCardResponse_rev, cards1) \<Rightarrow>
          (let db1 = db\<lparr>cardDocs := cards1\<rparr>;
               progressToPut = progressContent
           in case tbl_put_new (progressDocs db1) i progressToPut of
                Inl err \<Rightarrow>
                  (case tbl_remove (cardDocs db1) i putCardResponse_rev of
                     Inl err2 \<Rightarrow> Some (Inl err2, db1)
                   | Inr cards2 \<Rightarrow> Some (Inl err, db1\<lparr>cardDocs := cards2\<rparr>))
              | Inr (r, progs1) \<Rightarrow>
                  Some (Inr (mergeDocs i cardContent progressToPut), db1\<lparr>progressDocs := progs1\<rparr>)))"

definition putNewCard ::
  "env \<Rightarrow> string list \<Rightarrow> CardUpdate \<Rightarrow> database \<Rightarrow>
   ((db_error + MergedCard) \<times> database) option" where
  "putNewCard e ids cardIn db =
     (let cardContent0 =
            \<lparr>d_front = (case u_front cardIn of Some f \<Rightarrow> f | None \<Rightarrow> []),
             d_back = (case u_back cardIn of Some b \<Rightarrow> b | None \<Rightarrow> []),
             d_keywords = u_keywords cardIn, d_tags = u_tags cardIn, d_starred = u_starred cardIn,
             d_created = env_now e, d_modified = env_now e\<rparr>;
          cardContent =
            normalizeCardForDB e cardContent0 (d_keywords cardContent0) (d_tags cardContent0)
              (d_starred cardContent0);
          progressContent =
            \<lparr>pc_level = (case u_progress cardIn of
                           Some p \<Rightarrow> (case u_level p of Some l \<Rightarrow> l | None \<Rightarrow> 0)
                         | None \<Rightarrow> 0),
             due = (case u_progress cardIn of
                      Some p \<Rightarrow> (case u_due p of Some (Some t) \<Rightarrow> t | _ \<Rightarrow> 0)
                    | None \<Rightarrow> 0)\<rparr>
      in tryPutNewCard cardContent progressContent db ids)"

subsection \<open>\<open>putCard\<close> with an id: \<open>_updateCard\<close> and \<open>_updateProgress\<close>\<close>

text \<open>\<open>Object.keys(update).length\<close> for the update with \<open>id\<close> and \<open>progress\<close> stripped.\<close>

definition hasCardFields :: "CardUpdate \<Rightarrow> bool" where
  "hasCardFields u =
     (u_front u \<noteq> None \<or> u_back u \<noteq> None \<or> u_keywords u \<noteq> None \<or> u_tags u \<noteq> None \<or>
      u_starred u \<noteq> None \<or> u_created u \<noteq> None \<or> u_modified u \<noteq> None)"

text \<open>\<open>{ ...doc, ...update }\<close>.\<close>

definition applyUpdate :: "CardContent \<Rightarrow> CardUpdate \<Rightarrow> CardContent" where
  "applyUpdate d u =
     \<lparr>d_front = (case u_front u of Some f \<Rightarrow> f | None \<Rightarrow> d_front d),
      d_back = (case u_back u of Some b \<Rightarrow> b | None \<Rightarrow> d_back d),
      d_keywords = (case u_keywords u of Some ks \<Rightarrow> Some ks | None \<Rightarrow> d_keywords d),
      d_tags = (case u_tags u of Some ts \<Rightarrow> Some ts | None \<Rightarrow> d_tags d),
      d_starred = (case u_starred u of Some b \<Rightarrow> Some b | None \<Rightarrow> d_starred d),
      d_created = (case u_created u of Some t \<Rightarrow> t | None \<Rightarrow> d_created d),
      d_modified = (case u_modified u of Some t \<Rightarrow> t | None \<Rightarrow> d_modified d)\<rparr>"

text \<open>
  \<open>_updateCard\<close>: the callback sees \<open>{}\<close> for a missing or deleted document and the
  call then fails with status 404, message \<open>missing\<close>; an update without card fields
  writes nothing.
\<close>

definition updateCard ::
  "env \<Rightarrow> database \<Rightarrow> string \<Rightarrow> CardUpdate \<Rightarrow> (db_error + CardContent) \<times> database" where
  "updateCard e db i update =
     (case tbl_get (cardDocs db) i of
        Inl err \<Rightarrow> (Inl NotFound_missing, db)
      | Inr d \<Rightarrow>
          (let merged = applyUpdate (the (content d)) update
           in if \<not> hasCardFields update then (Inr merged, db)
              else
                (let card1 = (normalizeCardForDB e merged (u_keywords update) (u_tags update)
                                (u_starred update))\<lparr>d_modified := env_now e\<rparr>
                 in (Inr card1, db\<lparr>cardDocs := tbl_update (cardDocs db) i d card1\<rparr>))))"

text \<open>\<open>_updateProgress\<close>; the update is \<open>{ ...card.progress }\<close>.\<close>

definition updateProgress ::
  "database \<Rightarrow> string \<Rightarrow> ProgressUpdate option \<Rightarrow> (db_error + ProgressContent) \<times> database" where
  "updateProgress db i update =
     (case tbl_get (progressDocs db) i of
        Inl err \<Rightarrow> (Inl NotFound_missing, db)
      | Inr d \<Rightarrow>
          (let p0 = the (content d);
               newDue = (case update of
                           Some u \<Rightarrow> (case u_due u of Some (Some t) \<Rightarrow> Some t | _ \<Rightarrow> None)
                         | None \<Rightarrow> None);
               dueChanged = (case newDue of Some t \<Rightarrow> due p0 \<noteq> t | None \<Rightarrow> False);
               p1 = (if dueChanged then p0\<lparr>due := the newDue\<rparr> else p0);
               newLevel = (case update of Some u \<Rightarrow> u_level u | None \<Rightarrow> None);
               levelChanged = (case newLevel of Some l \<Rightarrow> pc_level p1 \<noteq> l | None \<Rightarrow> False);
               p2 = (if levelChanged then p1\<lparr>pc_level := the newLevel\<rparr> else p1);
               hasChange = (dueChanged \<or> levelChanged)
           in if \<not> hasChange then (Inr p2, db)
              else (Inr p2, db\<lparr>progressDocs := tbl_update (progressDocs db) i d p2\<rparr>)))"

text \<open>
  \<open>putCard\<close>. \<open>!card.id\<close> holds for an absent and for an empty id. \<open>None\<close> is only
  possible on the new-card path (see \<open>tryPutNewCard\<close>).
\<close>

definition putCard ::
  "env \<Rightarrow> string list \<Rightarrow> database \<Rightarrow> CardUpdate \<Rightarrow> ((db_error + MergedCard) \<times> database) option" where
  "putCard e ids db cardIn =
     (if u_id cardIn = None \<or> u_id cardIn = Some [] then putNewCard e ids cardIn db
      else
        (let i = the (u_id cardIn)
         in case updateCard e db i cardIn of
              (Inl err, db1) \<Rightarrow> Some (Inl err, db1)
            | (Inr cardDoc, db1) \<Rightarrow>
                (case updateProgress db1 i (u_progress cardIn) of
                   (Inl err, db2) \<Rightarrow> Some (Inl err, db2)
                 | (Inr progressDoc, db2) \<Rightarrow> Some (Inr (mergeDocs i cardDoc progressDoc), db2))))"

subsection \<open>\<open>deleteCard\<close>\<close>

text \<open>
  Modelled from the spec: the helper \<open>stubbornDelete\<close> that \<open>CardStore\<close> imports from
  \<open>./utils\<close>. The specification calls it "stubborn delete (retry-on-conflict removal)",
  "retried against concurrent revision changes", and has deleting a nonexistent id
  succeed silently: the document is read; if there is none, or only a tombstone, the
  call is done; otherwise the revision read is removed, and on a conflict the whole
  step is tried again. The first argument bounds the number of attempts, \<open>None\<close> is a run
  that is still retrying after them.
\<close>

fun stubbornDelete :: "nat \<Rightarrow> 'a table \<Rightarrow> string \<Rightarrow> (db_error + 'a table) option" where
  "stubbornDelete 0 tbl i = None"
| "stubbornDelete (Suc n) tbl i =
     (case tbl_get tbl i of
        Inl err \<Rightarrow> Some (Inr tbl)
      | Inr d \<Rightarrow>
          (case tbl_remove tbl i (doc_rev d) of
             Inr tbl' \<Rightarrow> Some (Inr tbl')
           | Inl err \<Rightarrow> (if status err = 409 then stubbornDelete n tbl i else Some (Inl err))))"

text \<open>\<open>deleteCard\<close>: the card document first, then the progress document.\<close>

text \<open>Whether an id has a live document, that is, whether a read succeeds.\<close>

definition isLive :: "'a table \<Rightarrow> string \<Rightarrow> bool" where
  "isLive tbl i = (case tbl_get tbl i of Inr d \<Rightarrow> True | Inl err \<Rightarrow> False)"

definition deleteCard :: "nat \<Rightarrow> database \<Rightarrow> string \<Rightarrow> (db_error + database) option" where
  "deleteCard n db i =
     (case stubbornDelete n (cardDocs db) i of
        None \<Rightarrow> None
      | Some (Inl err) \<Rightarrow> Some (Inl err)
      | Some (Inr cards1) \<Rightarrow>
          (case stubbornDelete n (progressDocs db) i of
             None \<Rightarrow> None
           | Some (Inl err) \<Rightarrow> Some (Inl err)
           | Some (Inr progs1) \<Rightarrow> Some (Inr (db\<lparr>cardDocs := cards1, progressDocs := progs1\<rparr>))))"

subsection \<open>What the store holds after a write\<close>

text \<open>The revision a put without \<open>_rev\<close> creates for an id without a live document.\<close>

definition next_rev :: "'a table \<Rightarrow> string \<Rightarrow> nat" where
  "next_rev tbl i = (case tbl i of None \<Rightarrow> 1 | Some d \<Rightarrow> Suc (doc_rev d))"

text \<open>
  The card document \<open>_updateCard\<close> leaves in the store and returns, and likewise the
  progress document for \<open>_updateProgress\<close>, for documents \<open>c0\<close> and \<open>p0\<close> found there.
\<close>

definition writtenCard :: "env \<Rightarrow> CardContent \<Rightarrow> CardUpdate \<Rightarrow> CardContent" where
  "writtenCard e c0 u =
     (if hasCardFields u
      then (normalizeCardForDB e (applyUpdate c0 u) (u_keywords u) (u_tags u) (u_starred u))
             \<lparr>d_modified := env_now e\<rparr>
      else c0)"

definition writtenProgress :: "ProgressContent \<Rightarrow> ProgressUpdate option \<Rightarrow> ProgressContent" where
  "writtenProgress p0 up =
     \<lparr>pc_level = (case up of Some p \<Rightarrow> (case u_level p of Some l \<Rightarrow> l | None \<Rightarrow> pc_level p0)
                  | None \<Rightarrow> pc_level p0),
      due = (case up of Some p \<Rightarrow> (case u_due p of Some (Some t) \<Rightarrow> t | _ \<Rightarrow> due p0)
             | None \<Rightarrow> due p0)\<rparr>"

subsection \<open>Concrete databases\<close>

text \<open>The identity for \<open>normalize\<close> (every string below is already normalised).\<close>

definition demo_env :: env where
  "demo_env = \<lparr>env_normalize = (\<lambda>s. s), env_now = 2000\<rparr>"

definition empty_db :: database where
  "empty_db = \<lparr>cardDocs = Map.empty, progressDocs = Map.empty\<rparr>"

text \<open>One card \<open>x\<close>, written at time 1000, level 2, due at 5000.\<close>

definition one_card_db :: database where
  "one_card_db =
     \<lparr>cardDocs = [''x'' \<mapsto>
         \<lparr>doc_rev = 1,
          content = Some \<lparr>d_front = ''Q'', d_back = ''A'', d_keywords = None, d_tags = None,
                          d_starred = None, d_created = 1000, d_modified = 1000\<rparr>\<rparr>],
      progressDocs = [''x'' \<mapsto> \<lparr>doc_rev = 1, content = Some \<lparr>pc_level = 2, due = 5000\<rparr>\<rparr>]\<rparr>"

text \<open>A progress document \<open>y\<close> without its card, as a sync can leave it.\<close>

definition orphan_progress_db :: database where
  "orphan_progress_db =
     \<lparr>cardDocs = Map.empty,
      progressDocs = [''y'' \<mapsto> \<lparr>doc_rev = 1, content = Some \<lparr>pc_level = 0, due = 0\<rparr>\<rparr>]\<rparr>"

text \<open>A new card with a front and a back, and updates of card \<open>x\<close>.\<close>

definition no_update :: CardUpdate where
  "no_update =
     \<lparr>u_id = None, u_front = None, u_back = None, u_keywords = None, u_tags = None,
      u_starred = None, u_created = None, u_modified = None, u_progress = None\<rparr>"

definition new_card :: CardUpdate where
  "new_card = no_update\<lparr>u_front := Some ''Q2'', u_back := Some ''A2''\<rparr>"

definition same_front_new_level :: CardUpdate where
  "same_front_new_level =
     no_update\<lparr>u_id := Some ''x'', u_front := Some ''Q'',
               u_progress := Some \<lparr>u_level = Some 3, u_due = None\<rparr>\<rparr>"

definition reset_progress :: CardUpdate where
  "reset_progress =
     no_update\<lparr>u_id := Some ''x'', u_progress := Some \<lparr>u_level = Some 0, u_due = Some None\<rparr>\<rparr>"

definition edit_and_review :: CardUpdate where
  "edit_and_review =
     no_update\<lparr>u_id := Some ''x'', u_front := Some ''Q edited'', u_keywords := Some [],
               u_starred := Some True,
               u_progress := Some \<lparr>u_level = Some 4, u_due = Some (Some 9000)\<rparr>\<rparr>"

section \<open>Properties of the conflict resolver\<close>

lemma MS_PER_DAY_pos: "0 < real_of_int MS_PER_DAY"
  by (simp add: MS_PER_DAY_def)

text \<open>
  C1 (as the source has it). The two finished-tests come first and hand the win to the
  revision that is \<^emph>\<open>not\<close> finished: a finished \<open>b\<close> loses to \<open>a\<close> whatever \<open>a\<close> is,
  and otherwise a finished \<open>a\<close> loses to \<open>b\<close>. Between two unfinished revisions the one
  with a non-empty history beats the one with an empty history, and otherwise the one
  with the later \<open>modified\<close> wins, \<open>a\<close> on a tie.
\<close>

theorem resolveConflicts_callback_precedence:
  "(finished b \<longrightarrow> resolveConflicts_callback a b = a) \<and>
   (\<not> finished b \<and> finished a \<longrightarrow> resolveConflicts_callback a b = b) \<and>
   (\<not> finished a \<and> \<not> finished b \<and> rc_history b = [] \<and> rc_history a \<noteq> []
      \<longrightarrow> resolveConflicts_callback a b = a) \<and>
   (\<not> finished a \<and> \<not> finished b \<and> rc_history a = [] \<and> rc_history b \<noteq> []
      \<longrightarrow> resolveConflicts_callback a b = b) \<and>
   (\<not> finished a \<and> \<not> finished b \<and> (rc_history a = [] \<longleftrightarrow> rc_history b = [])
      \<longrightarrow> resolveConflicts_callback a b = (if rc_modified a \<ge> rc_modified b then a else b))"
  by (auto simp: resolveConflicts_callback_def)

theorem resolveConflicts_callback_precedence_witness:
  "\<not> finished \<lparr>rc_maxCards = 10, rc_maxNewCards = 5, rc_history = [''a''], finished = False, rc_modified = 1\<rparr> \<and>
   resolveConflicts_callback
     \<lparr>rc_maxCards = 10, rc_maxNewCards = 5, rc_history = [''a''], finished = False, rc_modified = 1\<rparr>
     \<lparr>rc_maxCards = 10, rc_maxNewCards = 5, rc_history = [], finished = False, rc_modified = 2\<rparr>
   = \<lparr>rc_maxCards = 10, rc_maxNewCards = 5, rc_history = [''a''], finished = False, rc_modified = 1\<rparr>"
  using resolveConflicts_callback_precedence
    [of "\<lparr>rc_maxCards = 10, rc_maxNewCards = 5, rc_history = [], finished = False, rc_modified = 2\<rparr>"
        "\<lparr>rc_maxCards = 10, rc_maxNewCards = 5, rc_history = [''a''], finished = False, rc_modified = 1\<rparr>"]
  by simp

text \<open>
  C1 as the specification words it ("a finished review beats an unfinished one") fails:
  whichever argument position the finished revision is in, the unfinished one is
  returned, here even though the finished one has the longer history and the later
  \<open>modified\<close>.
\<close>

theorem finished_beats_unfinished_counterexample:
  "resolveConflicts_callback
     \<lparr>rc_maxCards = 10, rc_maxNewCards = 5, rc_history = [], finished = False, rc_modified = 1\<rparr>
     \<lparr>rc_maxCards = 10, rc_maxNewCards = 5, rc_history = [''a''], finished = True, rc_modified = 2\<rparr>
   = \<lparr>rc_maxCards = 10, rc_maxNewCards = 5, rc_history = [], finished = False, rc_modified = 1\<rparr>
   \<and> resolveConflicts_callback
     \<lparr>rc_maxCards = 10, rc_maxNewCards = 5, rc_history = [''a''], finished = True, rc_modified = 2\<rparr>
     \<lparr>rc_maxCards = 10, rc_maxNewCards = 5, rc_history = [], finished = False, rc_modified = 1\<rparr>
   = \<lparr>rc_maxCards = 10, rc_maxNewCards = 5, rc_history = [], finished = False, rc_modified = 1\<rparr>"
  by (simp add: resolveConflicts_callback_def)

section \<open>Properties of the overdueness score\<close>

text \<open>
  C5. For progress records of one and the same positive level that are due
  (\<open>due \<le> t\<close>), the score \<open>daysOverdue / level + (exp (0.00225 * daysOverdue) - 1)\<close>
  with \<open>daysOverdue = (t - due) / 86400000\<close> is strictly increasing in \<open>t - due\<close>.
\<close>

theorem getOverdueness_strict_mono:
  assumes lv: "0 < pc_level d1" and same: "pc_level d2 = pc_level d1"
    and "due d1 \<le> t1" and "due d2 \<le> t2"
    and lt: "t1 - due d1 < t2 - due d2"
  shows "getOverdueness d1 t1 < getOverdueness d2 t2"
proof -
  let ?x = "(t1 - due d1) / real_of_int MS_PER_DAY"
  let ?y = "(t2 - due d2) / real_of_int MS_PER_DAY"
  have xy: "?x < ?y"
    by (rule divide_strict_right_mono [OF lt MS_PER_DAY_pos])
  have lin: "?x / pc_level d1 < ?y / pc_level d1"
    by (rule divide_strict_right_mono [OF xy lv])
  have kpos: "0 < EXP_FACTOR"
    by (simp add: EXP_FACTOR_def)
  have "EXP_FACTOR * ?x < EXP_FACTOR * ?y"
    by (rule mult_strict_left_mono [OF xy kpos])
  then have ex: "exp (EXP_FACTOR * ?x) < exp (EXP_FACTOR * ?y)"
    by simp
  show ?thesis
    unfolding getOverdueness_def Let_def same using lin ex by linarith
qed

theorem getOverdueness_strict_mono_witness:
  "(0::real) < pc_level \<lparr>pc_level = 2, due = 1000\<rparr> \<and>
   due \<lparr>pc_level = 2, due = 1000\<rparr> \<le> 1000 \<and>
   due \<lparr>pc_level = 2, due = 500\<rparr> \<le> 86400500 \<and>
   (1000::real) - 1000 < 86400500 - 500 \<and>
   getOverdueness \<lparr>pc_level = 2, due = 1000\<rparr> 1000
     < getOverdueness \<lparr>pc_level = 2, due = 500\<rparr> 86400500"
  using getOverdueness_strict_mono
    [of "\<lparr>pc_level = 2, due = 1000\<rparr>" "\<lparr>pc_level = 2, due = 500\<rparr>" 1000 86400500]
  by simp

section \<open>Properties of the review reducer\<close>

subsection \<open>Array helpers\<close>

lemma indexOf_None_iff: "indexOf xs x = None \<longleftrightarrow> x \<notin> set xs"
  by (induction xs) auto

lemma indexOf_splice1_remove1:
  "(case indexOf xs x of Some i \<Rightarrow> splice1 i xs | None \<Rightarrow> xs) = remove1 x xs"
proof (induction xs)
  case Nil
  show ?case by simp
next
  case (Cons y ys)
  show ?case
  proof (cases "y = x")
    case True
    then show ?thesis by (simp add: splice1_def)
  next
    case False
    with Cons show ?thesis
      by (cases "indexOf ys x") (simp_all add: splice1_def)
  qed
qed

subsection \<open>Passing and failing the current card\<close>

lemma passCard_finished:
  assumes ph: "phase state = QUESTION \<or> phase state = ANSWER"
    and cur: "currentCard state = Obj c"
    and nf2: "c \<notin> set (failedCardsLevel2 state)"
  shows "\<exists>state' \<sigma>'. passCard state seed \<sigma> = Inr (state', \<sigma>') \<and>
           cards \<sigma>' c = cards \<sigma> c \<and>
           progresses \<sigma>' (progress (cards \<sigma> c)) =
             \<lparr>level = spec_passLevel (progresses \<sigma> (progress (cards \<sigma> c))) (reviewTime state),
              reviewed = Some (reviewTime state)\<rparr>"
proof -
  have i2: "indexOf (failedCardsLevel2 state) c = None"
    using nf2 by (simp add: indexOf_None_iff)
  have lv: "spec_passLevel old t =
      (if level old \<noteq> 0 \<and> reviewed old \<noteq> None
       then max (real_of_int (t - the (reviewed old)) / real_of_int MS_PER_DAY * 2)
              (max (level old) (1 / 2))
       else 1 / 2)" for old t
    unfolding spec_passLevel_def by (simp only: mult.commute max.commute max.left_commute)
  show ?thesis
    using ph cur i2 unfolding lv
    by (auto simp: passCard_def spreadCard_def setProgress_def Let_def)
qed

lemma failCard_store:
  assumes ph: "phase state = QUESTION \<or> phase state = ANSWER"
    and cur: "currentCard state = Obj c"
  shows "\<exists>state' \<sigma>'. failCard state seed \<sigma> = Inr (state', \<sigma>') \<and>
           cards \<sigma>' c = cards \<sigma> c \<and>
           progresses \<sigma>' (progress (cards \<sigma> c)) =
             \<lparr>level = 0, reviewed = Some (reviewTime state)\<rparr>"
  using ph cur
  by (auto simp: failCard_def spreadCard_def setProgress_def Let_def)

subsection \<open>Card selection\<close>

lemma getCardAtIndex_pool:
  assumes i0: "0 \<le> i"
    and ilt: "i < int (length (failedCardsLevel2 state @ failedCardsLevel1 state @ h))"
  shows "getCardAtIndex state h i =
           Obj ((failedCardsLevel2 state @ failedCardsLevel1 state @ h) ! nat i)"
proof -
  define a where "a = failedCardsLevel2 state"
  define b where "b = failedCardsLevel1 state"
  have unfolded: "getCardAtIndex state h i =
      (if i < int (length a) then arrayGet a i
       else if i < int (length a) + int (length b) then arrayGet b (i - int (length a))
       else arrayGet h (i - (int (length a) + int (length b))))"
    by (simp add: getCardAtIndex_def Let_def a_def b_def)
  have bound: "i < int (length a) + int (length b) + int (length h)"
    using ilt by (simp add: a_def b_def)
  consider (two) "i < int (length a)"
    | (one) "int (length a) \<le> i" "i < int (length a) + int (length b)"
    | (hp) "int (length a) + int (length b) \<le> i"
    by linarith
  then have "getCardAtIndex state h i = Obj ((a @ b @ h) ! nat i)"
  proof cases
    case two
    then have "nat i < length a" using i0 by linarith
    then show ?thesis
      using two i0 by (simp add: unfolded arrayGet_def nth_append)
  next
    case one
    have n1: "\<not> nat i < length a" using one i0 by linarith
    have n2: "nat i - length a < length b" using one i0 by linarith
    have n3: "nat (i - int (length a)) = nat i - length a" using one by linarith
    have "arrayGet b (i - int (length a)) = Obj (b ! (nat i - length a))"
      using one n3 by (simp add: arrayGet_def)
    then show ?thesis
      using one n1 n2 by (simp add: unfolded nth_append)
  next
    case hp
    have n1: "\<not> nat i < length a" using hp i0 by linarith
    have n2: "\<not> nat i - length a < length b" using hp i0 by linarith
    have n3: "nat (i - (int (length a) + int (length b))) = nat i - length a - length b"
      using hp by linarith
    have "arrayGet h (i - (int (length a) + int (length b))) =
            Obj (h ! (nat i - length a - length b))"
      using hp bound n3 by (simp add: arrayGet_def)
    then show ?thesis
      using hp n1 n2 by (simp add: unfolded nth_append)
  qed
  then show ?thesis by (simp add: a_def b_def)
qed

lemma nat_succ: "0 \<le> (k::int) \<Longrightarrow> nat (k + 1) = nat k + 1"
  by simp

lemma nat_pred: "nat ((k::int) - 1) = nat k - 1"
  by simp

lemma floor_seed_bounds:
  assumes "0 \<le> (s::real)" "s < 1" "0 < n"
  shows "0 \<le> \<lfloor>s * real n\<rfloor>" and "\<lfloor>s * real n\<rfloor> < int n"
proof -
  show "0 \<le> \<lfloor>s * real n\<rfloor>" using assms by simp
  have "s * real n < 1 * real n"
    using assms by (intro mult_strict_right_mono) simp_all
  then show "\<lfloor>s * real n\<rfloor> < int n"
    by (simp add: floor_less_iff)
qed

lemma select_core:
  assumes g: "\<And>i. 0 \<le> i \<Longrightarrow> i < int (length pool) \<Longrightarrow> g i = Obj (pool ! nat i)"
    and k0: "0 \<le> k" and kn: "k < int (length pool)"
  shows "(if g k = cur
          then (if int (length pool) = 1 then Null
                else g (if k < int (length pool) - 1 then k + 1 else k - 1))
          else g k) =
         (if Obj (pool ! nat k) \<noteq> cur then Obj (pool ! nat k)
          else if length pool = 1 then Null
          else Obj (pool ! (if nat k < length pool - 1 then nat k + 1 else nat k - 1)))"
proof -
  have first: "g k = Obj (pool ! nat k)"
    by (rule g [OF k0 kn])
  have idx: "(nat k < length pool - 1) = (k < int (length pool) - 1)"
    using k0 kn by linarith
  have one: "(int (length pool) = 1) = (length pool = 1)"
    by linarith
  show ?thesis
  proof (cases "k < int (length pool) - 1")
    case True
    have "g (k + 1) = Obj (pool ! nat (k + 1))"
      using k0 True by (intro g) simp_all
    then have "g (k + 1) = Obj (pool ! (nat k + 1))"
      by (simp only: nat_succ [OF k0])
    then show ?thesis
      using True first idx one by simp
  next
    case False
    show ?thesis
    proof (cases "length pool = 1")
      case True
      then show ?thesis using first one by simp
    next
      case ne1: False
      have "1 \<le> k" using False ne1 kn k0 by linarith
      then have "g (k - 1) = Obj (pool ! nat (k - 1))"
        using kn by (intro g) simp_all
      then have "g (k - 1) = Obj (pool ! (nat k - 1))"
        by (simp only: nat_pred)
      then show ?thesis
        using False first idx one ne1 by simp
    qed
  qed
qed

lemma findNextCard_spec:
  assumes s: "0 \<le> seed" "seed < 1"
    and ne: "failedCardsLevel2 state @ failedCardsLevel1 state @ h \<noteq> []"
  shows "findNextCard state h cur
           (int (length (failedCardsLevel2 state @ failedCardsLevel1 state @ h))) seed
         = spec_select (failedCardsLevel2 state @ failedCardsLevel1 state @ h) cur seed"
proof -
  define pool where "pool = failedCardsLevel2 state @ failedCardsLevel1 state @ h"
  define k where "k = \<lfloor>seed * real (length pool)\<rfloor>"
  have npos: "0 < length pool" using ne by (simp add: pool_def)
  have k0: "0 \<le> k" and kn: "k < int (length pool)"
    using floor_seed_bounds [OF s npos] by (simp_all add: k_def)
  have g: "getCardAtIndex state h i = Obj (pool ! nat i)"
    if "0 \<le> i" "i < int (length pool)" for i
    using that unfolding pool_def by (rule getCardAtIndex_pool)
  have core: "(if getCardAtIndex state h k = cur
          then (if int (length pool) = 1 then Null
                else getCardAtIndex state h (if k < int (length pool) - 1 then k + 1 else k - 1))
          else getCardAtIndex state h k) =
         (if Obj (pool ! nat k) \<noteq> cur then Obj (pool ! nat k)
          else if length pool = 1 then Null
          else Obj (pool ! (if nat k < length pool - 1 then nat k + 1 else nat k - 1)))"
    by (rule select_core [where g = "getCardAtIndex state h", OF g k0 kn])
  have lhs: "findNextCard state h cur (int (length pool)) seed =
        (if getCardAtIndex state h k = cur
          then (if int (length pool) = 1 then Null
                else getCardAtIndex state h (if k < int (length pool) - 1 then k + 1 else k - 1))
          else getCardAtIndex state h k)"
    using npos unfolding findNextCard_def Let_def k_def by simp
  have rhs: "spec_select pool cur seed =
         (if Obj (pool ! nat k) \<noteq> cur then Obj (pool ! nat k)
          else if length pool = 1 then Null
          else Obj (pool ! (if nat k < length pool - 1 then nat k + 1 else nat k - 1)))"
    unfolding spec_select_def Let_def k_def by simp
  show ?thesis
    unfolding pool_def [symmetric] lhs rhs by (rule core)
qed

subsection \<open>Evaluating the reducer on concrete sessions\<close>

lemmas eval_defs = initialState_def reviewLoaded_def updateNextCard_def
     findNextCard_def getCardAtIndex_def arrayGet_def truthy_def isNewCard_def passCard_def failCard_def spreadCard_def setProgress_def
     updateReviewCard_def replaceCard_def replaceCardVal_def splice1_def Let_def

subsection \<open>The interval after a pass\<close>

text \<open>
  C3. \<open>PASS_CARD\<close> in phase \<open>QUESTION\<close> or \<open>ANSWER\<close> on a current card that is in neither
  failed queue returns a state, and leaves the card's \<open>progress.level\<close> at
  \<open>max (previousLevel, 2 * days since reviewed, 0.5)\<close>; at \<open>0.5\<close> when the previous level
  is 0 or there is no previous \<open>reviewed\<close> timestamp.
\<close>

theorem PASS_CARD_new_level:
  assumes "phase state = QUESTION \<or> phase state = ANSWER"
    and "currentCard state = Obj c"
    and "c \<notin> set (failedCardsLevel2 state)"
    and "c \<notin> set (failedCardsLevel1 state)"
  shows "\<exists>state' \<sigma>'. review state (PASS_CARD seed) \<sigma> = Inr (state', \<sigma>') \<and>
           level (progresses \<sigma>' (progress (cards \<sigma>' c))) =
             (if level (progresses \<sigma> (progress (cards \<sigma> c))) = 0 \<or>
                 reviewed (progresses \<sigma> (progress (cards \<sigma> c))) = None
              then 1 / 2
              else max (level (progresses \<sigma> (progress (cards \<sigma> c))))
                     (max (2 * (real_of_int
                                  (reviewTime state -
                                   the (reviewed (progresses \<sigma> (progress (cards \<sigma> c))))) /
                                real_of_int MS_PER_DAY))
                        (1 / 2)))"
proof -
  obtain state' \<sigma>' where r: "passCard state seed \<sigma> = Inr (state', \<sigma>')"
    and c: "cards \<sigma>' c = cards \<sigma> c"
    and p: "progresses \<sigma>' (progress (cards \<sigma> c)) =
             \<lparr>level = spec_passLevel (progresses \<sigma> (progress (cards \<sigma> c))) (reviewTime state),
              reviewed = Some (reviewTime state)\<rparr>"
    using passCard_finished [OF assms(1,2,3)] by blast
  have "level (progresses \<sigma>' (progress (cards \<sigma>' c))) =
          spec_passLevel (progresses \<sigma> (progress (cards \<sigma> c))) (reviewTime state)"
    by (simp add: c p)
  then show ?thesis
    using r by (auto simp: spec_passLevel_def)
qed

theorem PASS_CARD_new_level_witness:
  "(phase last_card_state = QUESTION \<or> phase last_card_state = ANSWER) \<and>
   currentCard last_card_state = Obj 0 \<and>
   0 \<notin> set (failedCardsLevel2 last_card_state) \<and>
   0 \<notin> set (failedCardsLevel1 last_card_state) \<and>
   (\<exists>state' \<sigma>'. review last_card_state (PASS_CARD 0) last_card_store = Inr (state', \<sigma>') \<and>
      level (progresses \<sigma>' (progress (cards \<sigma>' 0))) = 10)"
  using PASS_CARD_new_level [of last_card_state 0 0 last_card_store]
  by (simp add: last_card_state_def last_card_store_def initialState_def MS_PER_DAY_def)

subsection \<open>What a failure leaves in the progress record\<close>

text \<open>
  C10 (as the source has it). \<open>FAIL_CARD\<close> in phase \<open>QUESTION\<close> or \<open>ANSWER\<close> leaves the
  failed card's progress at level 0 with \<open>reviewed\<close> equal to the session's
  \<open>reviewTime\<close>. A pass that completes a card whose level is 0, as the failure left it,
  sets the level to \<open>0.5\<close>: the interval formula, and with it the \<open>reviewed\<close> timestamp,
  is not consulted.
\<close>

theorem FAIL_CARD_progress:
  "((phase state = QUESTION \<or> phase state = ANSWER) \<and> currentCard state = Obj c \<longrightarrow>
     (\<exists>state' \<sigma>'. review state (FAIL_CARD seed) \<sigma> = Inr (state', \<sigma>') \<and>
        progresses \<sigma>' (progress (cards \<sigma>' c)) = \<lparr>level = 0, reviewed = Some (reviewTime state)\<rparr>)) \<and>
   ((phase state = QUESTION \<or> phase state = ANSWER) \<and> currentCard state = Obj c \<and>
    c \<notin> set (failedCardsLevel2 state) \<and>
    level (progresses \<sigma> (progress (cards \<sigma> c))) = 0 \<longrightarrow>
     (\<exists>state' \<sigma>'. review state (PASS_CARD seed) \<sigma> = Inr (state', \<sigma>') \<and>
        level (progresses \<sigma>' (progress (cards \<sigma>' c))) = 1 / 2))"
proof -
  have fail: "\<exists>state' \<sigma>'. review state (FAIL_CARD seed) \<sigma> = Inr (state', \<sigma>') \<and>
        progresses \<sigma>' (progress (cards \<sigma>' c)) = \<lparr>level = 0, reviewed = Some (reviewTime state)\<rparr>"
    if "phase state = QUESTION \<or> phase state = ANSWER" "currentCard state = Obj c"
    using failCard_store [OF that, of seed \<sigma>] by auto
  have pass: "\<exists>state' \<sigma>'. review state (PASS_CARD seed) \<sigma> = Inr (state', \<sigma>') \<and>
        level (progresses \<sigma>' (progress (cards \<sigma>' c))) = 1 / 2"
    if "phase state = QUESTION \<or> phase state = ANSWER" "currentCard state = Obj c"
      "c \<notin> set (failedCardsLevel2 state)" "level (progresses \<sigma> (progress (cards \<sigma> c))) = 0"
    using passCard_finished [OF that(1,2,3), of seed \<sigma>] that(4)
    by (auto simp: spec_passLevel_def)
  show ?thesis using fail pass by blast
qed

theorem FAIL_CARD_progress_witness:
  "(phase last_card_state = QUESTION \<or> phase last_card_state = ANSWER) \<and>
   currentCard last_card_state = Obj 0 \<and>
   (\<exists>state' \<sigma>'. review last_card_state (FAIL_CARD 0) last_card_store = Inr (state', \<sigma>') \<and>
        progresses \<sigma>' (progress (cards \<sigma>' 0)) = \<lparr>level = 0, reviewed = Some 518400000\<rparr>)"
  using FAIL_CARD_progress [of last_card_state 0 0 last_card_store]
  by (simp add: last_card_state_def last_card_store_def initialState_def)

text \<open>
  C10 as worded says that a later pass computes the new interval from the time of the
  failure. On its last card, level 3 and reviewed on day 1, the session fails the card
  on day 6 and passes it twice on day 16. The failure stores level 0 and the day-6
  timestamp; the interval formula applied to the failure time would give
  \<open>max (3, 2 * 10, 0.5) = 20\<close>, but the card ends with level \<open>0.5\<close>.
\<close>

theorem later_pass_ignores_failure_time_counterexample:
  "(case dispatchAll last_card_state
           [FAIL_CARD 0, SET_REVIEW_TIME 1382400000, PASS_CARD 0, PASS_CARD 0] last_card_store of
      Inr (state', \<sigma>') \<Rightarrow>
        progresses \<sigma>' 0 = \<lparr>level = 1 / 2, reviewed = Some 1382400000\<rparr> \<and>
        phase state' = COMPLETE
    | Inl e \<Rightarrow> False) \<and>
   (case dispatchAll last_card_state [FAIL_CARD 0] last_card_store of
      Inr (state', \<sigma>') \<Rightarrow>
        progresses \<sigma>' 0 = \<lparr>level = 0, reviewed = Some 518400000\<rparr> \<and>
        spec_passLevel \<lparr>level = 3, reviewed = Some 518400000\<rparr> 1382400000 = 20
    | Inl e \<Rightarrow> False)"
  by (simp add: last_card_state_def last_card_store_def eval_defs spec_passLevel_def MS_PER_DAY_def)

subsection \<open>Purity\<close>

text \<open>
  C2 fails on the code. After loading two new cards, \<open>PASS_CARD\<close> changes what the
  \<^emph>\<open>input\<close> state shows for its current card: the spread copy shares the \<open>progress\<close>
  object, so the level and \<open>reviewed\<close> of the input's card are overwritten.
\<close>

theorem PASS_CARD_mutates_input_state:
  "case dispatchAll (initialState 1000) demo_loaded demo_store of
     Inr (state, \<sigma>) \<Rightarrow>
       (case review state (PASS_CARD 0) \<sigma> of
          Inr (state', \<sigma>') \<Rightarrow>
            cardvalView \<sigma> (currentCard state) = Some (''a'', ''Q1'', ''A1'', 0, None) \<and>
            cardvalView \<sigma>' (currentCard state) = Some (''a'', ''Q1'', ''A1'', 1 / 2, Some 1000) \<and>
            deepView \<sigma>' state \<noteq> deepView \<sigma> state
        | Inl e \<Rightarrow> False)
   | Inl e \<Rightarrow> False"
  by (simp add: demo_loaded_def demo_store_def eval_defs deepView_def cardvalView_def cardView_def)

subsection \<open>The current card and the history\<close>

text \<open>
  C9 fails on the code. The session \<open>demo_edit_after_reload\<close> ends in phase \<open>QUESTION\<close>
  with a current card that is in \<open>history\<close>: after the pass, \<open>history\<close> holds the copy of
  the first object of card \<open>a\<close> and the current card is the second object of card \<open>a\<close>;
  \<open>UPDATE_REVIEW_CARD\<close> replaces both, by \<open>_id\<close>, with the one edited object.
\<close>

theorem currentCard_in_history_reachable:
  "case dispatchAll (initialState 1000) demo_edit_after_reload demo_store of
     Inr (state, \<sigma>) \<Rightarrow> currentCard state = Obj 4 \<and> history state = [4] \<and> phase state = QUESTION
   | Inl e \<Rightarrow> False"
  by (simp add: demo_edit_after_reload_def demo_loaded_def demo_store_def eval_defs)

subsection \<open>Choosing the next card\<close>

text \<open>
  C4 (as the source has it). Let \<open>cur\<close> be the current card after the mode's update: the
  card promoted from \<open>nextCard\<close> in mode \<open>UpdateCurrentCard\<close>, the unchanged current card
  in mode \<open>ReplaceNextCard\<close>. The pool is
  \<open>failedCardsLevel2 @ failedCardsLevel1 @ heap\<close>, the heap without the promoted card.
  For a seed in \<open>[0, 1)\<close> the pick is \<open>spec_select pool cur seed\<close>: index
  \<open>floor (seed * poolSize)\<close>, moved up by one (down by one at the last index) when the
  card there is \<open>cur\<close>, null when the pool is that one card. The pick becomes \<open>nextCard\<close>,
  except that it becomes \<open>currentCard\<close>, and \<open>nextCard\<close> null, when no card was promoted
  although the state had a current card.
\<close>

theorem updateNextCard_selection:
  assumes seed: "0 \<le> seed" "seed < 1"
    and avail: "failedCardsLevel2 state @ failedCardsLevel1 state @ heap state \<noteq> []"
    and cur: "cur = (if mode = UpdateCurrentCard then nextCard state else currentCard state)"
    and pool: "pool = failedCardsLevel2 state @ failedCardsLevel1 state @
                 (if mode = UpdateCurrentCard
                  then (case cur of Obj c \<Rightarrow> remove1 c (heap state) | _ \<Rightarrow> heap state)
                  else heap state)"
  shows "nextCard (updateNextCard \<sigma> state seed mode) =
           (if pool = [] \<or> (\<not> truthy cur \<and> truthy (currentCard state)) then Null
            else spec_select pool cur seed) \<and>
         currentCard (updateNextCard \<sigma> state seed mode) =
           (if pool \<noteq> [] \<and> \<not> truthy cur \<and> truthy (currentCard state)
            then spec_select pool cur seed else cur)"
proof -
  define heapIndex where "heapIndex =
     (if mode = UpdateCurrentCard
      then (case cur of Obj c \<Rightarrow> indexOf (heap state) c | _ \<Rightarrow> None) else None)"
  define heap1 where "heap1 =
     (case heapIndex of Some i \<Rightarrow> splice1 i (heap state) | None \<Rightarrow> heap state)"
  have heap1: "heap1 = (if mode = UpdateCurrentCard
                  then (case cur of Obj c \<Rightarrow> remove1 c (heap state) | _ \<Rightarrow> heap state)
                  else heap state)"
    unfolding heap1_def heapIndex_def
    by (simp add: indexOf_splice1_remove1 split: cardval.splits)
  have pool1: "pool = failedCardsLevel2 state @ failedCardsLevel1 state @ heap1"
    using pool heap1 by simp
  have len: "(case heapIndex of
                Some i \<Rightarrow> int (length (failedCardsLevel2 state)) +
                          int (length (failedCardsLevel1 state)) + int (length (heap state)) - 1
              | None \<Rightarrow> int (length (failedCardsLevel2 state)) +
                        int (length (failedCardsLevel1 state)) + int (length (heap state)))
             = int (length pool)"
  proof (cases heapIndex)
    case None
    then show ?thesis by (simp add: pool1 heap1_def)
  next
    case (Some i)
    then obtain c where c: "cur = Obj c" "indexOf (heap state) c = Some i"
      unfolding heapIndex_def by (auto split: if_splits cardval.splits)
    then have "c \<in> set (heap state)"
      using indexOf_None_iff [of "heap state" c] by auto
    then have "length (remove1 c (heap state)) = length (heap state) - 1" "heap state \<noteq> []"
      by (auto simp: length_remove1)
    moreover have "heap1 = remove1 c (heap state)"
      using indexOf_splice1_remove1 [of "heap state" c] c Some by (simp add: heap1_def)
    ultimately show ?thesis
      using Some by (cases "heap state") (simp_all add: pool1)
  qed
  define nextCard1 where "nextCard1 = findNextCard state heap1 cur (int (length pool)) seed"
  have n1: "nextCard1 = (if pool = [] then Null else spec_select pool cur seed)"
  proof (cases "pool = []")
    case True
    then show ?thesis by (simp add: nextCard1_def findNextCard_def)
  next
    case False
    then have ne: "failedCardsLevel2 state @ failedCardsLevel1 state @ heap1 \<noteq> []"
      unfolding pool1 by simp
    have "nextCard1 = spec_select pool cur seed"
      unfolding nextCard1_def pool1 by (rule findNextCard_spec [OF seed ne])
    with False show ?thesis by simp
  qed
  have tr: "truthy (spec_select pool cur seed)" if "pool \<noteq> []" "\<not> truthy cur"
    using that by (auto simp: spec_select_def truthy_def Let_def split: cardval.splits)
  have ca: "int (length (failedCardsLevel2 state)) + int (length (failedCardsLevel1 state)) +
            int (length (heap state)) \<noteq> 0"
    using avail by (cases "failedCardsLevel2 state"; cases "failedCardsLevel1 state";
                    cases "heap state") simp_all
  define revisit where
    "revisit = (\<not> truthy cur \<and> truthy (currentCard state) \<and> truthy nextCard1)"
  have nx: "nextCard (updateNextCard \<sigma> state seed mode) = (if revisit then Null else nextCard1)"
    unfolding updateNextCard_def revisit_def nextCard1_def heap1_def len [symmetric]
      heapIndex_def Let_def cur
    using ca by simp
  have cu: "currentCard (updateNextCard \<sigma> state seed mode) = (if revisit then nextCard1 else cur)"
    unfolding updateNextCard_def revisit_def nextCard1_def heap1_def len [symmetric]
      heapIndex_def Let_def cur
    using ca by simp
  show ?thesis
    unfolding nx cu revisit_def using n1 tr by (auto simp: truthy_def)
qed

theorem updateNextCard_selection_witness:
  "(0::real) \<le> 0 \<and> (0::real) < 1 \<and>
   failedCardsLevel2 two_failed_state @ failedCardsLevel1 two_failed_state @
     heap two_failed_state \<noteq> [] \<and>
   nextCard (updateNextCard demo_store two_failed_state 0 UpdateCurrentCard) = Obj 0 \<and>
   currentCard (updateNextCard demo_store two_failed_state 0 UpdateCurrentCard) = Obj 1"
  using updateNextCard_selection
    [where seed = 0 and state = two_failed_state and mode = UpdateCurrentCard
       and \<sigma> = demo_store, OF _ _ _ refl refl]
  by (simp add: two_failed_state_def initialState_def spec_select_def truthy_def)

text \<open>
  C4 as worded compares the pick with the outgoing current card. In the state
  \<open>two_failed_state\<close> card 0 is the outgoing current card and card 1 is promoted; with
  seed \<open>1/2\<close> the pick is index 1, card 0. The rule applied to the outgoing card would
  move to index 0 and give card 1; the code compares with the promoted card 1 and
  keeps card 0.
\<close>

theorem outgoing_card_selected_counterexample:
  "currentCard two_failed_state = Obj 0 \<and>
   nextCard (updateNextCard demo_store two_failed_state (1 / 2) UpdateCurrentCard) = Obj 0 \<and>
   spec_select
     (failedCardsLevel2 two_failed_state @ failedCardsLevel1 two_failed_state @
      heap two_failed_state)
     (currentCard two_failed_state) (1 / 2) = Obj 1"
  by (simp add: two_failed_state_def demo_store_def eval_defs spec_select_def)

section \<open>Properties of the card store\<close>

subsection \<open>The document store\<close>

lemma tbl_get_Inr: "tbl_get tbl i = Inr d \<longleftrightarrow> tbl i = Some d \<and> content d \<noteq> None"
  by (auto simp: tbl_get_def split: option.splits)

lemma isLive_iff: "isLive tbl i \<longleftrightarrow> (\<exists>d c. tbl i = Some d \<and> content d = Some c)"
  by (auto simp: isLive_def tbl_get_def split: option.splits)

lemma tbl_get_update: "tbl_get (tbl_update tbl i d c) i = Inr \<lparr>doc_rev = Suc (doc_rev d), content = Some c\<rparr>"
  by (simp add: tbl_get_def tbl_update_def)

lemma stubbornDelete_Suc:
  "stubbornDelete (Suc n) tbl i =
     Some (Inr (if isLive tbl i
                then tbl(i \<mapsto> \<lparr>doc_rev = Suc (doc_rev (the (tbl i))), content = None\<rparr>)
                else tbl))"
  by (auto simp: isLive_def tbl_get_def tbl_remove_def split: option.splits)

lemma not_isLive_tombstone: "\<not> isLive (tbl(i \<mapsto> \<lparr>doc_rev = r, content = None\<rparr>)) i"
  by (simp add: isLive_def tbl_get_def)

lemma tbl_put_new_free:
  "\<not> isLive tbl i \<Longrightarrow>
   tbl_put_new tbl i c = Inr (next_rev tbl i, tbl(i \<mapsto> \<lparr>doc_rev = next_rev tbl i, content = Some c\<rparr>))"
  by (auto simp: isLive_iff tbl_put_new_def next_rev_def split: option.splits)

lemma tbl_put_new_taken: "isLive tbl i \<Longrightarrow> tbl_put_new tbl i c = Inl Conflict"
  by (auto simp: isLive_iff tbl_put_new_def split: option.splits)

subsection \<open>Deleting a card\<close>

text \<open>
  C8. With \<open>stubbornDelete\<close> as the specification describes it, \<open>deleteCard\<close> returns
  without an error on every database and every id, after which neither the card nor
  the progress document is live; a second \<open>deleteCard\<close> of the id succeeds as well and
  leaves the database as it is; and when there is nothing to delete (the id never
  existed or is already deleted) the first call leaves the database as it is.
\<close>

theorem deleteCard_idempotent:
  "\<exists>db'. deleteCard (Suc n) db i = Some (Inr db') \<and>
         \<not> isLive (cardDocs db') i \<and> \<not> isLive (progressDocs db') i \<and>
         deleteCard (Suc m) db' i = Some (Inr db') \<and>
         (\<not> isLive (cardDocs db) i \<and> \<not> isLive (progressDocs db) i \<longrightarrow> db' = db)"
proof -
  define cards1 where "cards1 =
    (if isLive (cardDocs db) i
     then (cardDocs db)(i \<mapsto> \<lparr>doc_rev = Suc (doc_rev (the (cardDocs db i))), content = None\<rparr>)
     else cardDocs db)"
  define progs1 where "progs1 =
    (if isLive (progressDocs db) i
     then (progressDocs db)(i \<mapsto> \<lparr>doc_rev = Suc (doc_rev (the (progressDocs db i))), content = None\<rparr>)
     else progressDocs db)"
  define db' where "db' = db\<lparr>cardDocs := cards1, progressDocs := progs1\<rparr>"
  have first: "deleteCard (Suc n) db i = Some (Inr db')"
    by (simp add: deleteCard_def stubbornDelete_Suc db'_def cards1_def progs1_def
          del: stubbornDelete.simps)
  have dead1: "\<not> isLive (cardDocs db') i"
    by (simp add: db'_def cards1_def not_isLive_tombstone)
  have dead2: "\<not> isLive (progressDocs db') i"
    by (simp add: db'_def progs1_def not_isLive_tombstone)
  have second: "deleteCard (Suc m) db' i = Some (Inr db')"
    using dead1 dead2 by (simp add: deleteCard_def stubbornDelete_Suc del: stubbornDelete.simps)
  have same: "db' = db" if "\<not> isLive (cardDocs db) i" "\<not> isLive (progressDocs db) i"
    using that by (simp add: db'_def cards1_def progs1_def)
  show ?thesis
    using first dead1 dead2 second same by blast
qed

theorem deleteCard_idempotent_witness:
  "\<not> isLive (cardDocs empty_db) ''abc'' \<and> \<not> isLive (progressDocs empty_db) ''abc'' \<and>
   deleteCard 1 empty_db ''abc'' = Some (Inr empty_db) \<and>
   (\<exists>db'. deleteCard 1 one_card_db ''x'' = Some (Inr db') \<and>
          getCard db' ''x'' = Inl NotFound_deleted \<and>
          deleteCard 1 db' ''x'' = Some (Inr db'))"
proof -
  have dead: "\<not> isLive (cardDocs empty_db) ''abc'' \<and> \<not> isLive (progressDocs empty_db) ''abc''"
    by (simp add: empty_db_def isLive_def tbl_get_def)
  have missing: "deleteCard 1 empty_db ''abc'' = Some (Inr empty_db)"
    using deleteCard_idempotent [of 0 empty_db "''abc''" 0] dead by auto
  obtain db' where d: "deleteCard 1 one_card_db ''x'' = Some (Inr db')"
    "\<not> isLive (cardDocs db') ''x''" "deleteCard 1 db' ''x'' = Some (Inr db')"
    using deleteCard_idempotent [of 0 one_card_db "''x''" 0] by auto
  have "deleteCard 1 one_card_db ''x'' =
          Some (Inr (one_card_db\<lparr>cardDocs := (cardDocs one_card_db)(''x'' \<mapsto> \<lparr>doc_rev = 2, content = None\<rparr>),
                      progressDocs := (progressDocs one_card_db)(''x'' \<mapsto> \<lparr>doc_rev = 2, content = None\<rparr>)\<rparr>))"
    by (simp add: deleteCard_def one_card_db_def tbl_get_def tbl_remove_def numeral_2_eq_2)
  with d(1) have "getCard db' ''x'' = Inl NotFound_deleted"
    by (auto simp: getCard_def tbl_get_def)
  with dead missing d show ?thesis by blast
qed

subsection \<open>Creating a card\<close>

lemma tryPutNewCard_collision:
  assumes "isLive (cardDocs db) i"
  shows "tryPutNewCard cc pc db (i # ids) = tryPutNewCard cc pc db ids"
  using assms by (simp add: tbl_put_new_taken status_def)

lemma tryPutNewCard_rollback:
  assumes "\<not> isLive (cardDocs db) i" and "isLive (progressDocs db) i"
  shows "tryPutNewCard cc pc db (i # ids) =
           Some (Inl Conflict,
                 db\<lparr>cardDocs := (cardDocs db)
                       (i \<mapsto> \<lparr>doc_rev = Suc (next_rev (cardDocs db) i), content = None\<rparr>)\<rparr>)"
  using assms
  by (simp add: tbl_put_new_free tbl_put_new_taken tbl_remove_def)

lemma tryPutNewCard_success:
  assumes "\<not> isLive (cardDocs db) i" and "\<not> isLive (progressDocs db) i"
  shows "tryPutNewCard cc pc db (i # ids) =
           Some (Inr (mergeDocs i cc pc),
                 db\<lparr>cardDocs := (cardDocs db)
                       (i \<mapsto> \<lparr>doc_rev = next_rev (cardDocs db) i, content = Some cc\<rparr>),
                    progressDocs := (progressDocs db)
                       (i \<mapsto> \<lparr>doc_rev = next_rev (progressDocs db) i, content = Some pc\<rparr>)\<rparr>)"
  using assms
  by (simp add: tbl_put_new_free)

text \<open>
  C6. \<open>putCard\<close> without an id, with \<open>i\<close> the id generated first. If the card write
  succeeds and the progress write fails (a live progress document has the id), the
  call fails with that error, the conflict; the card document has been written and
  removed again (its revision is two on, and it is a tombstone), and the progress
  table is untouched. If the card write hits a live card document (status 409), the
  call behaves as a call with the next generated id. If both writes succeed, the
  merged card is returned under the id \<open>i\<close> and \<open>getCard\<close> returns it.
\<close>

theorem putCard_without_id:
  assumes "u_id u = None \<or> u_id u = Some []"
  shows "(\<not> isLive (cardDocs db) i \<and> isLive (progressDocs db) i \<longrightarrow>
            (\<exists>db'. putCard e (i # ids) db u = Some (Inl Conflict, db') \<and>
                   cardDocs db' i =
                     Some \<lparr>doc_rev = Suc (next_rev (cardDocs db) i), content = None\<rparr> \<and>
                   \<not> isLive (cardDocs db') i \<and>
                   progressDocs db' = progressDocs db)) \<and>
         (isLive (cardDocs db) i \<longrightarrow> putCard e (i # ids) db u = putCard e ids db u) \<and>
         (\<not> isLive (cardDocs db) i \<and> \<not> isLive (progressDocs db) i \<longrightarrow>
            (\<exists>c db'. putCard e (i # ids) db u = Some (Inr c, db') \<and>
                     c_id c = i \<and> getCard db' i = Inr c))"
proof (intro conjI impI)
  assume "\<not> isLive (cardDocs db) i \<and> isLive (progressDocs db) i"
  then show "\<exists>db'. putCard e (i # ids) db u = Some (Inl Conflict, db') \<and>
                   cardDocs db' i =
                     Some \<lparr>doc_rev = Suc (next_rev (cardDocs db) i), content = None\<rparr> \<and>
                   \<not> isLive (cardDocs db') i \<and>
                   progressDocs db' = progressDocs db"
    using assms
    by (auto simp: putCard_def putNewCard_def Let_def tryPutNewCard_rollback isLive_iff
             simp del: tryPutNewCard.simps)
next
  assume "isLive (cardDocs db) i"
  then show "putCard e (i # ids) db u = putCard e ids db u"
    using assms
    by (auto simp: putCard_def putNewCard_def Let_def tryPutNewCard_collision
             simp del: tryPutNewCard.simps)
next
  assume "\<not> isLive (cardDocs db) i \<and> \<not> isLive (progressDocs db) i"
  then show "\<exists>c db'. putCard e (i # ids) db u = Some (Inr c, db') \<and>
                     c_id c = i \<and> getCard db' i = Inr c"
    using assms
    by (auto simp: putCard_def putNewCard_def Let_def tryPutNewCard_success getCard_def
             tbl_get_def mergeDocs_def
             simp del: tryPutNewCard.simps)
qed

theorem putCard_without_id_witness:
  "(u_id new_card = None \<or> u_id new_card = Some []) \<and>
   \<not> isLive (cardDocs orphan_progress_db) ''y'' \<and> isLive (progressDocs orphan_progress_db) ''y'' \<and>
   (\<exists>db'. putCard demo_env [''y''] orphan_progress_db new_card = Some (Inl Conflict, db') \<and>
          getCard db' ''y'' = Inl NotFound_deleted) \<and>
   isLive (cardDocs one_card_db) ''x'' \<and>
   \<not> isLive (cardDocs one_card_db) ''z'' \<and> \<not> isLive (progressDocs one_card_db) ''z'' \<and>
   (\<exists>c db'. putCard demo_env [''x'', ''z''] one_card_db new_card = Some (Inr c, db') \<and>
            c_id c = ''z'' \<and> getCard db' ''z'' = Inr c)"
proof -
  have noid: "u_id new_card = None \<or> u_id new_card = Some []"
    by (simp add: new_card_def no_update_def)
  have y: "\<not> isLive (cardDocs orphan_progress_db) ''y'' \<and>
           isLive (progressDocs orphan_progress_db) ''y''"
    by (simp add: orphan_progress_db_def isLive_def tbl_get_def)
  have x: "isLive (cardDocs one_card_db) ''x''"
    by (simp add: one_card_db_def isLive_def tbl_get_def)
  have z: "\<not> isLive (cardDocs one_card_db) ''z'' \<and> \<not> isLive (progressDocs one_card_db) ''z''"
    by (simp add: one_card_db_def isLive_def tbl_get_def)
  obtain db' where r: "putCard demo_env [''y''] orphan_progress_db new_card = Some (Inl Conflict, db')"
    and t: "cardDocs db' ''y'' =
              Some \<lparr>doc_rev = Suc (next_rev (cardDocs orphan_progress_db) ''y''), content = None\<rparr>"
    using putCard_without_id [OF noid, of orphan_progress_db "''y''" demo_env "[]"] y by blast
  have gone: "getCard db' ''y'' = Inl NotFound_deleted"
    using t by (simp add: getCard_def tbl_get_def)
  have "putCard demo_env [''x'', ''z''] one_card_db new_card =
          putCard demo_env [''z''] one_card_db new_card"
    using putCard_without_id [OF noid, of one_card_db "''x''" demo_env "[''z'']"] x by blast
  moreover obtain c db'' where "putCard demo_env [''z''] one_card_db new_card = Some (Inr c, db'')"
    "c_id c = ''z''" "getCard db'' ''z'' = Inr c"
    using putCard_without_id [OF noid, of one_card_db "''z''" demo_env "[]"] z by blast
  ultimately have "\<exists>c db'. putCard demo_env [''x'', ''z''] one_card_db new_card = Some (Inr c, db') \<and>
            c_id c = ''z'' \<and> getCard db' ''z'' = Inr c"
    by auto
  with noid y x z r gone show ?thesis by blast
qed

subsection \<open>Updating a card\<close>

lemma applyUpdate_no_fields: "\<not> hasCardFields u \<Longrightarrow> applyUpdate c0 u = c0"
  by (simp add: hasCardFields_def applyUpdate_def)

lemma updateCard_live:
  assumes "tbl_get (cardDocs db) i = Inr cd" and "content cd = Some c0"
  shows "\<exists>db1. updateCard e db i u = (Inr (writtenCard e c0 u), db1) \<and>
               isLive (cardDocs db1) i \<and>
               content (the (cardDocs db1 i)) = Some (writtenCard e c0 u) \<and>
               progressDocs db1 = progressDocs db"
proof (cases "hasCardFields u")
  case True
  then show ?thesis
    by (simp add: updateCard_def writtenCard_def Let_def isLive_iff tbl_update_def assms)
next
  case False
  have live: "cardDocs db i = Some cd"
    using assms(1) by (simp add: tbl_get_Inr)
  show ?thesis
    by (simp add: updateCard_def writtenCard_def Let_def isLive_iff applyUpdate_no_fields
          False assms live)
qed

lemma updateProgress_live:
  assumes "tbl_get (progressDocs db) i = Inr pd" and "content pd = Some p0"
  shows "\<exists>db2. updateProgress db i up = (Inr (writtenProgress p0 up), db2) \<and>
               isLive (progressDocs db2) i \<and>
               content (the (progressDocs db2 i)) = Some (writtenProgress p0 up) \<and>
               cardDocs db2 = cardDocs db"
proof -
  have live: "progressDocs db i = Some pd"
    using assms(1) by (simp add: tbl_get_Inr)
  show ?thesis
    by (cases up; cases "u_level (the up)"; cases "u_due (the up)"; cases "the (u_due (the up))")
       (auto simp: updateProgress_def writtenProgress_def Let_def isLive_iff tbl_update_def
          assms live)
qed

lemma getCard_live:
  assumes "isLive (cardDocs db) i" "isLive (progressDocs db) i"
  shows "getCard db i = Inr (mergeDocs i (the (content (the (cardDocs db i))))
                                     (the (content (the (progressDocs db i)))))"
  using assms by (auto simp: getCard_def isLive_iff tbl_get_def)

text \<open>
  C7 (as the source has it). \<open>putCard\<close> with the id of a card whose two documents are
  live succeeds, and \<open>getCard\<close> then returns the card that \<open>putCard\<close> returned. In it
  every supplied card field other than \<open>modified\<close> is the supplied one, text in
  normalised form; the level is the supplied one; a supplied \<open>due\<close> date is read back
  (as null when it is the epoch), while a supplied \<open>due\<close> of null leaves the stored
  date in place. \<open>modified\<close> is the current time as soon as any card field is supplied,
  whatever its value, and is the stored one when only \<open>id\<close> and \<open>progress\<close> are supplied.
\<close>

theorem putCard_then_getCard:
  assumes uid: "u_id u = Some i" and ne: "i \<noteq> []"
    and cg: "tbl_get (cardDocs db) i = Inr cd" and cc: "content cd = Some c0"
    and pg: "tbl_get (progressDocs db) i = Inr pd" and pc: "content pd = Some p0"
  shows "\<exists>c db'. putCard e ids db u = Some (Inr c, db') \<and> getCard db' i = Inr c \<and>
           (case u_front u of Some f \<Rightarrow> c_front c = env_normalize e f | None \<Rightarrow> True) \<and>
           (case u_back u of Some b \<Rightarrow> c_back c = env_normalize e b | None \<Rightarrow> True) \<and>
           (case u_keywords u of Some ks \<Rightarrow> c_keywords c = map (env_normalize e) ks
            | None \<Rightarrow> True) \<and>
           (case u_tags u of Some ts \<Rightarrow> c_tags c = map (env_normalize e) ts | None \<Rightarrow> True) \<and>
           (case u_starred u of Some b \<Rightarrow> c_starred c = b | None \<Rightarrow> True) \<and>
           (case u_created u of Some t \<Rightarrow> c_created c = t | None \<Rightarrow> True) \<and>
           c_modified c = (if hasCardFields u then env_now e else d_modified c0) \<and>
           (case u_progress u of
              Some p \<Rightarrow>
                (case u_level p of Some l \<Rightarrow> c_level c = l | None \<Rightarrow> True) \<and>
                (case u_due p of
                   Some (Some t) \<Rightarrow> c_due c = (if t \<noteq> 0 then Some t else None)
                 | Some None \<Rightarrow> c_due c = (if due p0 \<noteq> 0 then Some (due p0) else None)
                 | None \<Rightarrow> True)
            | None \<Rightarrow> True)"
proof -
  obtain db1 where u1: "updateCard e db i u = (Inr (writtenCard e c0 u), db1)"
    and l1: "isLive (cardDocs db1) i"
    and s1: "content (the (cardDocs db1 i)) = Some (writtenCard e c0 u)"
    and f1: "progressDocs db1 = progressDocs db"
    using updateCard_live [OF cg cc] by blast
  have pg1: "tbl_get (progressDocs db1) i = Inr pd"
    using pg f1 by simp
  obtain db2 where u2: "updateProgress db1 i (u_progress u) =
                          (Inr (writtenProgress p0 (u_progress u)), db2)"
    and l2: "isLive (progressDocs db2) i"
    and s2: "content (the (progressDocs db2 i)) = Some (writtenProgress p0 (u_progress u))"
    and f2: "cardDocs db2 = cardDocs db1"
    using updateProgress_live [OF pg1 pc] by blast
  define c where "c = mergeDocs i (writtenCard e c0 u) (writtenProgress p0 (u_progress u))"
  have put: "putCard e ids db u = Some (Inr c, db2)"
    using uid ne by (simp add: putCard_def u1 u2 c_def)
  have get: "getCard db2 i = Inr c"
    using getCard_live [of db2 i] l1 l2 s1 s2 f2 by (simp add: c_def)
  have fr: "case u_front u of Some f \<Rightarrow> c_front c = env_normalize e f | None \<Rightarrow> True"
    by (simp add: c_def mergeDocs_def writtenCard_def hasCardFields_def normalizeCardForDB_def
          applyUpdate_def Let_def split: option.splits)
  have bk: "case u_back u of Some b \<Rightarrow> c_back c = env_normalize e b | None \<Rightarrow> True"
    by (simp add: c_def mergeDocs_def writtenCard_def hasCardFields_def normalizeCardForDB_def
          applyUpdate_def Let_def split: option.splits)
  have kw: "case u_keywords u of Some ks \<Rightarrow> c_keywords c = map (env_normalize e) ks
            | None \<Rightarrow> True"
    by (simp add: c_def mergeDocs_def writtenCard_def hasCardFields_def normalizeCardForDB_def
          applyUpdate_def Let_def split: option.splits)
  have tg: "case u_tags u of Some ts \<Rightarrow> c_tags c = map (env_normalize e) ts | None \<Rightarrow> True"
    by (simp add: c_def mergeDocs_def writtenCard_def hasCardFields_def normalizeCardForDB_def
          applyUpdate_def Let_def split: option.splits)
  have st: "case u_starred u of Some b \<Rightarrow> c_starred c = b | None \<Rightarrow> True"
    by (simp add: c_def mergeDocs_def writtenCard_def hasCardFields_def normalizeCardForDB_def
          applyUpdate_def Let_def split: option.splits)
  have cr: "case u_created u of Some t \<Rightarrow> c_created c = t | None \<Rightarrow> True"
    by (simp add: c_def mergeDocs_def writtenCard_def hasCardFields_def normalizeCardForDB_def
          applyUpdate_def Let_def split: option.splits)
  have md: "c_modified c = (if hasCardFields u then env_now e else d_modified c0)"
    by (simp add: c_def mergeDocs_def writtenCard_def)
  have pr: "case u_progress u of
              Some p \<Rightarrow>
                (case u_level p of Some l \<Rightarrow> c_level c = l | None \<Rightarrow> True) \<and>
                (case u_due p of
                   Some (Some t) \<Rightarrow> c_due c = (if t \<noteq> 0 then Some t else None)
                 | Some None \<Rightarrow> c_due c = (if due p0 \<noteq> 0 then Some (due p0) else None)
                 | None \<Rightarrow> True)
            | None \<Rightarrow> True"
    by (simp add: c_def mergeDocs_def writtenProgress_def split: option.splits)
  show ?thesis
    using put get fr bk kw tg st cr md pr by blast
qed

theorem putCard_then_getCard_witness:
  "u_id edit_and_review = Some ''x'' \<and> ''x'' \<noteq> [] \<and>
   isLive (cardDocs one_card_db) ''x'' \<and> isLive (progressDocs one_card_db) ''x'' \<and>
   (\<exists>c db'. putCard demo_env [] one_card_db edit_and_review = Some (Inr c, db') \<and>
            getCard db' ''x'' = Inr c \<and>
            c_front c = ''Q edited'' \<and> c_keywords c = [] \<and> c_starred c = True \<and>
            c_modified c = 2000 \<and> c_level c = 4 \<and> c_due c = Some 9000)"
proof -
  let ?c0 = "\<lparr>d_front = ''Q'', d_back = ''A'', d_keywords = None, d_tags = None,
              d_starred = None, d_created = 1000, d_modified = 1000\<rparr>"
  let ?p0 = "\<lparr>pc_level = 2, due = 5000\<rparr>"
  have uid: "u_id edit_and_review = Some ''x''"
    by (simp add: edit_and_review_def no_update_def)
  have cg: "tbl_get (cardDocs one_card_db) ''x'' = Inr \<lparr>doc_rev = 1, content = Some ?c0\<rparr>"
    by (simp add: one_card_db_def tbl_get_def)
  have pg: "tbl_get (progressDocs one_card_db) ''x'' = Inr \<lparr>doc_rev = 1, content = Some ?p0\<rparr>"
    by (simp add: one_card_db_def tbl_get_def)
  have live: "isLive (cardDocs one_card_db) ''x'' \<and> isLive (progressDocs one_card_db) ''x''"
    by (simp add: isLive_def cg pg)
  have "\<exists>c db'. putCard demo_env [] one_card_db edit_and_review = Some (Inr c, db') \<and>
            getCard db' ''x'' = Inr c \<and>
            c_front c = ''Q edited'' \<and> c_keywords c = [] \<and> c_starred c = True \<and>
            c_modified c = 2000 \<and> c_level c = 4 \<and> c_due c = Some 9000"
    using putCard_then_getCard [OF uid _ cg _ pg, of ?c0 ?p0 demo_env "[]"]
    by (simp add: edit_and_review_def no_update_def demo_env_def hasCardFields_def)
  with uid live show ?thesis by simp
qed

text \<open>
  C7 as worded fails in two ways on card \<open>x\<close> (front \<open>Q\<close>, modified at 1000, due at
  5000). Supplying the unchanged front together with a new level changes progress
  only, yet \<open>modified\<close> becomes the current time 2000. Supplying a \<open>due\<close> of null is
  not read back: \<open>getCard\<close> still returns the date 5000.
\<close>

theorem putCard_roundtrip_counterexample:
  "(case getCard one_card_db ''x'' of
      Inr c \<Rightarrow> c_front c = ''Q'' \<and> c_modified c = 1000 \<and> c_due c = Some 5000
    | Inl err \<Rightarrow> False) \<and>
   (case putCard demo_env [] one_card_db same_front_new_level of
      Some (Inr c, db') \<Rightarrow>
        getCard db' ''x'' = Inr c \<and> c_front c = ''Q'' \<and> c_level c = 3 \<and> c_modified c = 2000
    | _ \<Rightarrow> False) \<and>
   (case putCard demo_env [] one_card_db reset_progress of
      Some (Inr c, db') \<Rightarrow> getCard db' ''x'' = Inr c \<and> c_level c = 0 \<and> c_due c = Some 5000
    | _ \<Rightarrow> False)"
  by (simp add: one_card_db_def demo_env_def same_front_new_level_def reset_progress_def
      no_update_def putCard_def updateCard_def updateProgress_def getCard_def tbl_get_def
      tbl_update_def mergeDocs_def normalizeCardForDB_def applyUpdate_def hasCardFields_def
      Let_def)


end
